theory Spec2Isabelle
  imports Main "HOL-Library.AList"
begin

section \<open>Data model (types.ts)\<close>

text \<open>
  The JSON shapes of \<^verbatim>\<open>types.ts\<close>. A position holds two numbers; the host only
  produces non-negative integers there, so they are natural numbers. A range is the pair
  of its start and end position. An optional field (\<^verbatim>\<open>location?\<close>,
  \<^verbatim>\<open>functionName?\<close>, \<^verbatim>\<open>condition?\<close>, ...) is an option, \<open>None\<close> standing for
  \<^verbatim>\<open>undefined\<close>.
\<close>

record JsonUri =
  path :: string

record JsonPosition =
  line :: nat
  character :: nat

type_synonym JsonRange = "JsonPosition \<times> JsonPosition"

record JsonLocation =
  uri :: JsonUri
  range_loc :: JsonRange

text \<open>
  What \<^verbatim>\<open>instanceof\<close> observes of a breakpoint object: a plain object (as read back
  from the persisted blob), or an instance of one of the two host classes.
\<close>

datatype BreakpointClass = PlainObject | SourceBreakpointClass | FunctionBreakpointClass

record JsonBreakpoint =
  instance_of :: BreakpointClass
  enabled :: bool
  condition :: "string option"
  hitCondition :: "string option"
  logMessage :: "string option"
  location :: "JsonLocation option"
  functionName :: "string option"

record Branch =
  name :: string
  breakpoints :: "JsonBreakpoint list"

text \<open>
  \<^verbatim>\<open>version\<close> is declared a string, but \<^verbatim>\<open>getWorkspaceBreakpoints\<close> tests
  \<^verbatim>\<open>!branchBreakpoints.version\<close> for blobs that were written without it, so the
  field is optional here.
\<close>

record BranchBreakpoints =
  version :: "string option"
  branch :: "Branch list"

subsection \<open>Rendering positions and ranges\<close>

definition digit_char :: "nat \<Rightarrow> char" where
  "digit_char d = char_of (48 + d)"

text \<open>The decimal rendering of a non-negative integer in a template string.\<close>

function string_of_number :: "nat \<Rightarrow> string" where
  "string_of_number n =
     (if n < 10 then [digit_char n]
      else string_of_number (n div 10) @ [digit_char (n mod 10)])"
  by pat_completeness auto
termination
  by (relation "measure (\<lambda>n. n)") auto

declare string_of_number.simps [simp del]

definition toStringPosition :: "JsonPosition \<Rightarrow> string" where
  "toStringPosition position =
     ''('' @ string_of_number (line position) @ '', '' @
     string_of_number (character position) @ '')''"

definition toStringRange :: "JsonRange \<Rightarrow> string" where
  "toStringRange range0 =
     ''['' @ toStringPosition (fst range0) @ '', '' @ toStringPosition (snd range0) @ '']''"

text \<open>
  The pair of positions of a range reaches the code in two forms. A breakpoint that is an
  instance of the host's class \<^verbatim>\<open>SourceBreakpoint\<close> holds a \<^verbatim>\<open>Range\<close> object, with the
  properties \<^verbatim>\<open>start\<close> and \<^verbatim>\<open>end\<close>. Any other object holds the two-element array
  \<^verbatim>\<open>JsonRange\<close> of the persisted form, which has no such properties.
\<close>

datatype RangeValue = RangeObject JsonRange | RangeArray JsonRange

text \<open>What \<^verbatim>\<open>breakpoint.location.range\<close> evaluates to, for a breakpoint with a location.\<close>

definition location_range :: "JsonBreakpoint \<Rightarrow> RangeValue" where
  "location_range bp =
     (if instance_of bp = SourceBreakpointClass
      then RangeObject (range_loc (the (location bp)))
      else RangeArray (range_loc (the (location bp))))"

text \<open>\<^verbatim>\<open>range.start\<close> and \<^verbatim>\<open>range.end\<close>: undefined on an array.\<close>

definition range_start :: "RangeValue \<Rightarrow> JsonPosition option" where
  "range_start r = (case r of RangeObject p \<Rightarrow> Some (fst p) | RangeArray p \<Rightarrow> None)"

definition range_end :: "RangeValue \<Rightarrow> JsonPosition option" where
  "range_end r = (case r of RangeObject p \<Rightarrow> Some (snd p) | RangeArray p \<Rightarrow> None)"

text \<open>
  What the code throws: the \<^verbatim>\<open>TypeError\<close> of the language for reading a property of
  \<^verbatim>\<open>undefined\<close>, and the \<^verbatim>\<open>Error\<close> that \<^verbatim>\<open>getBreakpoint\<close> creates, with its message.
\<close>

datatype error = TypeError | Error string

text \<open>\<^verbatim>\<open>toJsonLineChar\<close> reads \<^verbatim>\<open>lineChar.line\<close>, which throws when its argument is undefined.\<close>

definition toJsonLineChar :: "JsonPosition option \<Rightarrow> error + JsonPosition" where
  "toJsonLineChar lineChar =
     (case lineChar of
        None \<Rightarrow> Inl TypeError
      | Some p \<Rightarrow> Inr \<lparr>line = line p, character = character p\<rparr>)"

definition toJsonRange :: "RangeValue \<Rightarrow> error + JsonRange" where
  "toJsonRange range0 =
     (case toJsonLineChar (range_start range0) of
        Inl e \<Rightarrow> Inl e
      | Inr start \<Rightarrow>
          (case toJsonLineChar (range_end range0) of
             Inl e \<Rightarrow> Inl e
           | Inr end0 \<Rightarrow> Inr (start, end0)))"

subsection \<open>The identity rule\<close>

definition isSourceBreakpoint :: "JsonBreakpoint \<Rightarrow> bool" where
  "isSourceBreakpoint bp = (location bp \<noteq> None)"

definition isFunctionBreakpoint :: "JsonBreakpoint \<Rightarrow> bool" where
  "isFunctionBreakpoint bp = (functionName bp \<noteq> None)"

definition areLineCharsEqual :: "JsonPosition \<Rightarrow> JsonPosition \<Rightarrow> bool" where
  "areLineCharsEqual lineChar1 lineChar2 =
     (line lineChar1 = line lineChar2 \<and> character lineChar1 = character lineChar2)"

definition areRangesEqual :: "JsonRange \<Rightarrow> JsonRange \<Rightarrow> bool" where
  "areRangesEqual range1 range2 =
     (areLineCharsEqual (fst range1) (fst range2) \<and>
      areLineCharsEqual (snd range1) (snd range2))"

text \<open>
  Modelled from the spec: the host's \<^verbatim>\<open>Range.isEqual\<close> is not part of the repository.
  Two ranges are equal when their start positions and their end positions are. The code
  calls it on the ranges of two \<^verbatim>\<open>SourceBreakpoint\<close> instances only.
\<close>

definition isEqual :: "JsonRange \<Rightarrow> JsonRange \<Rightarrow> bool" where
  "isEqual range1 range2 = (fst range1 = fst range2 \<and> snd range1 = snd range2)"

text \<open>
  \<^verbatim>\<open>areBreakpointsEqual\<close>, branch by branch. The selector \<open>the\<close> is only applied
  under the guard that makes the field present. When the two breakpoints are not both
  instances of \<^verbatim>\<open>SourceBreakpoint\<close>, the code converts both ranges with
  \<^verbatim>\<open>toJsonRange\<close>, the first one first, and the conversion of an array throws.
\<close>

definition areBreakpointsEqual :: "JsonBreakpoint \<Rightarrow> JsonBreakpoint \<Rightarrow> error + bool" where
  "areBreakpointsEqual breakpoint1 breakpoint2 =
     (if isSourceBreakpoint breakpoint1 \<and> isSourceBreakpoint breakpoint2 then
        (let location1 = the (location breakpoint1);
             location2 = the (location breakpoint2)
         in if path (uri location1) \<noteq> path (uri location2) then Inr False
            else if instance_of breakpoint1 = SourceBreakpointClass \<and>
                    instance_of breakpoint2 = SourceBreakpointClass
            then Inr (isEqual (range_loc location1) (range_loc location2))
            else
              (case toJsonRange (location_range breakpoint1) of
                 Inl e \<Rightarrow> Inl e
               | Inr range1 \<Rightarrow>
                   (case toJsonRange (location_range breakpoint2) of
                      Inl e \<Rightarrow> Inl e
                    | Inr range2 \<Rightarrow> Inr (areRangesEqual range1 range2))))
      else if isFunctionBreakpoint breakpoint1 \<and> isFunctionBreakpoint breakpoint2 then
        Inr (functionName breakpoint1 = functionName breakpoint2)
      else Inr False)"

text \<open>
  The equality of section 3 of the spec, in the spec's words, to compare the code with:
  two breakpoints with a location are equal when the resource paths are equal and the
  ranges are equal; two breakpoints with a function name are equal when the names are
  equal; a source and a function breakpoint are never equal. Where the spec is silent, on a
  breakpoint that carries both fields or none, the order of the guards of the code decides.
\<close>

definition specEquality :: "JsonBreakpoint \<Rightarrow> JsonBreakpoint \<Rightarrow> bool" where
  "specEquality a b =
     (if location a \<noteq> None \<and> location b \<noteq> None
      then path (uri (the (location a))) = path (uri (the (location b))) \<and>
           range_loc (the (location a)) = range_loc (the (location b))
      else if functionName a \<noteq> None \<and> functionName b \<noteq> None
      then functionName a = functionName b
      else False)"

section \<open>The extension (activation closure and its helpers)\<close>

subsection \<open>Array primitives of the language\<close>

text \<open>
  \<^verbatim>\<open>Array.prototype.findIndex\<close>: the index of the first element that satisfies the
  predicate, \<open>-1\<close> when there is none.
\<close>

fun findIndex :: "('a \<Rightarrow> bool) \<Rightarrow> 'a list \<Rightarrow> int" where
  "findIndex P [] = - 1"
| "findIndex P (x # xs) =
     (if P x then 0
      else (let i = findIndex P xs in if i = - 1 then - 1 else i + 1))"

text \<open>
  \<^verbatim>\<open>find\<close> and \<^verbatim>\<open>findIndex\<close> with a predicate that may throw: the predicate is
  called on the elements in order, and the first call that throws ends the search with
  that exception.
\<close>

fun findOrThrow :: "('a \<Rightarrow> error + bool) \<Rightarrow> 'a list \<Rightarrow> error + 'a option" where
  "findOrThrow P [] = Inr None"
| "findOrThrow P (x # xs) =
     (case P x of
        Inl e \<Rightarrow> Inl e
      | Inr found \<Rightarrow> if found then Inr (Some x) else findOrThrow P xs)"

fun findIndexOrThrow :: "('a \<Rightarrow> error + bool) \<Rightarrow> 'a list \<Rightarrow> error + int" where
  "findIndexOrThrow P [] = Inr (- 1)"
| "findIndexOrThrow P (x # xs) =
     (case P x of
        Inl e \<Rightarrow> Inl e
      | Inr found \<Rightarrow>
          if found then Inr 0
          else (case findIndexOrThrow P xs of
                  Inl e \<Rightarrow> Inl e
                | Inr i \<Rightarrow> if i = - 1 then Inr (- 1) else Inr (i + 1)))"

text \<open>
  \<^verbatim>\<open>xs.splice(start, 1)\<close>, as the language defines it: a negative start counts from
  the end of the array, and at most one element is deleted. The result is the array as it
  is left by the call.
\<close>

definition splice1 :: "int \<Rightarrow> 'a list \<Rightarrow> 'a list" where
  "splice1 start xs =
     (let len = int (length xs);
          actualStart = (if start < 0 then max (len + start) 0 else min start len);
          actualDeleteCount = min 1 (len - actualStart)
      in take (nat actualStart) xs @ drop (nat (actualStart + actualDeleteCount)) xs)"

text \<open>\<^verbatim>\<open>xs.slice(start, end)\<close>, with the same treatment of negative indices.\<close>

definition slice :: "int \<Rightarrow> int \<Rightarrow> 'a list \<Rightarrow> 'a list" where
  "slice start end0 xs =
     (let len = int (length xs);
          k = (if start < 0 then max (len + start) 0 else min start len);
          final = (if end0 < 0 then max (len + end0) 0 else min end0 len)
      in take (nat (final - k)) (drop (nat k) xs))"

subsection \<open>State\<close>

text \<open>
  Of the extension context the code uses the workspace state under the one key
  \<^verbatim>\<open>breakpointMap\<close> (\<open>None\<close> when nothing is stored there) and the version in the
  extension's package description.
\<close>

record ExtensionContext =
  workspaceState :: "BranchBreakpoints option"
  packageJSON_version :: "string option"

text \<open>
  The variables that the closures of \<^verbatim>\<open>activate\<close> share, together with the
  host's live breakpoints (\<^verbatim>\<open>vscodeDebug.breakpoints\<close>).
\<close>

record Activation =
  branchBreakpoints :: BranchBreakpoints
  isBranchLocked :: bool
  head :: string
  extensionContext :: ExtensionContext
  vscodeDebug_breakpoints :: "JsonBreakpoint list"

record BreakpointsChangeEvent =
  added :: "JsonBreakpoint list"
  changed :: "JsonBreakpoint list"
  removed :: "JsonBreakpoint list"

subsection \<open>The host's breakpoint API\<close>

text \<open>
  Modelled from the spec: the host breakpoint API (\<^verbatim>\<open>addBreakpoints\<close>,
  \<^verbatim>\<open>removeBreakpoints\<close>) is not part of the repository. The spec describes it as
  accepting \<^verbatim>\<open>add(list)\<close> and \<^verbatim>\<open>remove(list)\<close> on the live set; here adding is
  union with the live breakpoints and removing is difference.
\<close>

definition addBreakpoints :: "JsonBreakpoint list \<Rightarrow> JsonBreakpoint list \<Rightarrow> JsonBreakpoint list" where
  "addBreakpoints toAdd live = live @ filter (\<lambda>b. b \<notin> set live) toAdd"

definition removeBreakpoints :: "JsonBreakpoint list \<Rightarrow> JsonBreakpoint list \<Rightarrow> JsonBreakpoint list" where
  "removeBreakpoints toRemove live = filter (\<lambda>b. b \<notin> set toRemove) live"

subsection \<open>getBreakpoint\<close>

text \<open>
  The host's \<^verbatim>\<open>Uri.parse\<close> is not part of the repository either. The function
  \<open>uri_parse\<close> stands for parsing a stored path and reading the path of the resulting
  resource identifier; it is a parameter of everything that materialises a stored entry.
  The two constructors copy their arguments into the new object. A location is truthy when
  it is present, a function name when it is present and not the empty string.
\<close>

definition getBreakpoint :: "(string \<Rightarrow> string) \<Rightarrow> JsonBreakpoint \<Rightarrow> error + JsonBreakpoint" where
  "getBreakpoint uri_parse bp =
     (if instance_of bp = SourceBreakpointClass \<or> instance_of bp = FunctionBreakpointClass
      then Inr bp
      else
        (case location bp of
           Some loc \<Rightarrow>
             (let uri0 = \<lparr>path = uri_parse (path (uri loc))\<rparr>;
                  start = \<lparr>line = line (fst (range_loc loc)),
                           character = character (fst (range_loc loc))\<rparr>;
                  end0 = \<lparr>line = line (snd (range_loc loc)),
                          character = character (snd (range_loc loc))\<rparr>;
                  locationInstance = \<lparr>uri = uri0, range_loc = (start, end0)\<rparr>
              in Inr \<lparr>instance_of = SourceBreakpointClass, enabled = enabled bp,
                       condition = condition bp, hitCondition = hitCondition bp,
                       logMessage = logMessage bp, location = Some locationInstance,
                       functionName = None\<rparr>)
         | None \<Rightarrow>
             (case functionName bp of
                Some fn \<Rightarrow>
                  (if fn \<noteq> []
                   then Inr \<lparr>instance_of = FunctionBreakpointClass, enabled = enabled bp,
                             condition = condition bp, hitCondition = hitCondition bp,
                             logMessage = logMessage bp, location = None,
                             functionName = Some fn\<rparr>
                   else Inl (Error ''location or functionName has not been defined on the breakpoint.''))
              | None \<Rightarrow>
                  Inl (Error ''location or functionName has not been defined on the breakpoint.''))))"

text \<open>\<^verbatim>\<open>jsonBreakpoints.map(getBreakpoint)\<close>: the first entry that throws ends the map.\<close>

fun map_getBreakpoint :: "(string \<Rightarrow> string) \<Rightarrow> JsonBreakpoint list \<Rightarrow> error + JsonBreakpoint list" where
  "map_getBreakpoint uri_parse [] = Inr []"
| "map_getBreakpoint uri_parse (bp # bps) =
     (case getBreakpoint uri_parse bp of
        Inl e \<Rightarrow> Inl e
      | Inr n \<Rightarrow>
          (case map_getBreakpoint uri_parse bps of
             Inl e \<Rightarrow> Inl e
           | Inr ns \<Rightarrow> Inr (n # ns)))"

subsection \<open>setBreakpoints\<close>

text \<open>
  The two loops that collect \<^verbatim>\<open>toRemove\<close> and \<^verbatim>\<open>toAdd\<close>: the breakpoints of the
  first list for which \<^verbatim>\<open>find\<close> finds no equal breakpoint in the second. A comparison
  that throws ends the loop.
\<close>

fun withoutCounterpart :: "JsonBreakpoint list \<Rightarrow> JsonBreakpoint list \<Rightarrow> error + JsonBreakpoint list" where
  "withoutCounterpart [] others = Inr []"
| "withoutCounterpart (b # bs) others =
     (case findOrThrow (\<lambda>x. areBreakpointsEqual b x) others of
        Inl e \<Rightarrow> Inl e
      | Inr found \<Rightarrow>
          (case withoutCounterpart bs others of
             Inl e \<Rightarrow> Inl e
           | Inr rest \<Rightarrow> Inr (if found = None then b # rest else rest)))"

text \<open>
  The body of the \<^verbatim>\<open>try\<close> block, run on the state in which the flag is already
  set. It returns the exception that leaves the block, if any, and the state at that point.
\<close>

definition setBreakpoints_try :: "(string \<Rightarrow> string) \<Rightarrow> Activation \<Rightarrow> error option \<times> Activation" where
  "setBreakpoints_try uri_parse s =
     (let curBreakpoints = vscodeDebug_breakpoints s;
          branchBreakpoint = find (\<lambda>x. name x = head s) (branch (branchBreakpoints s));
          jsonBreakpoints = map_option breakpoints branchBreakpoint
      in case jsonBreakpoints of
           None \<Rightarrow> (None, s)
         | Some jbs \<Rightarrow>
             (if length jbs \<noteq> 0 then
                (case map_getBreakpoint uri_parse jbs of
                   Inl e \<Rightarrow> (Some e, s)
                 | Inr newBreakpoints \<Rightarrow>
                     (case withoutCounterpart curBreakpoints newBreakpoints of
                        Inl e \<Rightarrow> (Some e, s)
                      | Inr toRemove \<Rightarrow>
                          (case withoutCounterpart newBreakpoints curBreakpoints of
                             Inl e \<Rightarrow> (Some e, s)
                           | Inr toAdd \<Rightarrow>
                               (None,
                                s\<lparr>vscodeDebug_breakpoints :=
                                    removeBreakpoints toRemove
                                      (addBreakpoints toAdd curBreakpoints)\<rparr>))))
              else (None, s)))"

text \<open>
  \<^verbatim>\<open>try { isBranchLocked = true; ... } finally { isBranchLocked = false; }\<close>: the
  exception, if any, leaves the function after the \<^verbatim>\<open>finally\<close> block has run.
\<close>

definition setBreakpoints :: "(string \<Rightarrow> string) \<Rightarrow> Activation \<Rightarrow> error option \<times> Activation" where
  "setBreakpoints uri_parse s =
     (let r = setBreakpoints_try uri_parse (s\<lparr>isBranchLocked := True\<rparr>)
      in (fst r, (snd r)\<lparr>isBranchLocked := False\<rparr>))"

subsection \<open>getUpdatedBreakpoints\<close>

text \<open>
  The three loops over the event, each on the breakpoint list of the branch. A comparison
  that throws ends the loop; the list is then as the turns before left it.
\<close>

fun addedLoop :: "JsonBreakpoint list \<Rightarrow> JsonBreakpoint list \<Rightarrow> error option \<times> JsonBreakpoint list" where
  "addedLoop [] stored = (None, stored)"
| "addedLoop (b # bs) stored =
     (case findOrThrow (\<lambda>x. areBreakpointsEqual b x) stored of
        Inl e \<Rightarrow> (Some e, stored)
      | Inr existinBreakpoint \<Rightarrow>
          addedLoop bs (if existinBreakpoint = None then stored @ [b] else stored))"

fun changedLoop :: "JsonBreakpoint list \<Rightarrow> JsonBreakpoint list \<Rightarrow> error option \<times> JsonBreakpoint list" where
  "changedLoop [] stored = (None, stored)"
| "changedLoop (b # bs) stored =
     (case findIndexOrThrow (\<lambda>x. areBreakpointsEqual x b) stored of
        Inl e \<Rightarrow> (Some e, stored)
      | Inr index \<Rightarrow>
          (let spliced = splice1 index stored
           in changedLoop bs
                (slice 0 index spliced @ [b] @
                 slice (index + 1) (int (length spliced)) spliced)))"

fun removedLoop :: "JsonBreakpoint list \<Rightarrow> JsonBreakpoint list \<Rightarrow> error option \<times> JsonBreakpoint list" where
  "removedLoop [] stored = (None, stored)"
| "removedLoop (b # bs) stored =
     (case findIndexOrThrow (\<lambda>x. areBreakpointsEqual x b) stored of
        Inl e \<Rightarrow> (Some e, stored)
      | Inr index \<Rightarrow> removedLoop bs (splice1 index stored))"

text \<open>
  The branch object of an existing branch is the one inside the caller's map, and the
  loops update it in place. When nothing throws, it is stored at its own index of the
  copied array and the new map is returned (\<open>Inr\<close>; \<open>None\<close> is the \<^verbatim>\<open>undefined\<close> of the
  locked state). When a comparison throws (\<open>Inl\<close>), no map is returned, and the caller's
  map is left with the updates made so far; a branch that was not in the map is lost.
\<close>

definition getUpdatedBreakpoints ::
  "BreakpointsChangeEvent \<Rightarrow> bool \<Rightarrow> BranchBreakpoints \<Rightarrow> string \<Rightarrow>
   (error \<times> BranchBreakpoints) + BranchBreakpoints option" where
  "getUpdatedBreakpoints e locked bbs head0 =
     (if locked then Inr None
      else
        (let index = findIndex (\<lambda>x. name x = head0) (branch bbs);
             branch0 = (if index \<noteq> - 1 then branch bbs ! nat index
                        else \<lparr>name = head0, breakpoints = []\<rparr>);
             inPlace = (\<lambda>bps. if index \<noteq> - 1
                              then bbs\<lparr>branch :=
                                     (branch bbs)[nat index := branch0\<lparr>breakpoints := bps\<rparr>]\<rparr>
                              else bbs)
         in case addedLoop (added e) (breakpoints branch0) of
              (Some err, bps) \<Rightarrow> Inl (err, inPlace bps)
            | (None, bps1) \<Rightarrow>
                (case changedLoop (changed e) bps1 of
                   (Some err, bps) \<Rightarrow> Inl (err, inPlace bps)
                 | (None, bps2) \<Rightarrow>
                     (case removedLoop (removed e) bps2 of
                        (Some err, bps) \<Rightarrow> Inl (err, inPlace bps)
                      | (None, bps3) \<Rightarrow>
                          (let branch1 = branch0\<lparr>breakpoints := bps3\<rparr>;
                               updatedBranches =
                                 (if index = - 1 then branch bbs @ [branch1]
                                  else (branch bbs)[nat index := branch1])
                           in Inr (Some \<lparr>version = version bbs,
                                         branch = updatedBranches\<rparr>))))))"

text \<open>
  The listener registered with \<^verbatim>\<open>onDidChangeBreakpoints\<close>: the exception that leaves
  it, if any, and the state it leaves.
\<close>

definition onDidChangeBreakpoints ::
  "BreakpointsChangeEvent \<Rightarrow> Activation \<Rightarrow> error option \<times> Activation" where
  "onDidChangeBreakpoints e s =
     (case getUpdatedBreakpoints e (isBranchLocked s) (branchBreakpoints s) (head s) of
        Inl thrown \<Rightarrow> (Some (fst thrown), s\<lparr>branchBreakpoints := snd thrown\<rparr>)
      | Inr None \<Rightarrow> (None, s)
      | Inr (Some update0) \<Rightarrow>
          (None,
           s\<lparr>branchBreakpoints := update0,
             extensionContext := (extensionContext s)\<lparr>workspaceState := Some update0\<rparr>\<rparr>))"

subsection \<open>Clearing the map\<close>

definition getInitialBranchBreakpoints :: "ExtensionContext \<Rightarrow> BranchBreakpoints" where
  "getInitialBranchBreakpoints ctx = \<lparr>version = packageJSON_version ctx, branch = []\<rparr>"

text \<open>
  \<^verbatim>\<open>clearBranchBreakpoints\<close> returns the new map; its update of the workspace state
  with \<^verbatim>\<open>undefined\<close> removes the key.
\<close>

definition clearBranchBreakpoints ::
  "ExtensionContext \<Rightarrow> BranchBreakpoints \<Rightarrow> BranchBreakpoints \<times> ExtensionContext" where
  "clearBranchBreakpoints ctx bbs =
     (getInitialBranchBreakpoints ctx, ctx\<lparr>workspaceState := None\<rparr>)"

text \<open>The command \<^verbatim>\<open>branchBreakpoints.clearMap\<close>.\<close>

definition clearMapCommand :: "Activation \<Rightarrow> Activation" where
  "clearMapCommand s =
     (let r = clearBranchBreakpoints (extensionContext s) (branchBreakpoints s)
      in s\<lparr>branchBreakpoints := fst r, extensionContext := snd r\<rparr>)"

subsection \<open>getWorkspaceBreakpoints\<close>

text \<open>
  The two \<^verbatim>\<open>Map\<close>s of the pass are association lists: a \<^verbatim>\<open>Map\<close> iterates in the
  order in which its keys were first set, and setting a key that is present replaces its
  value where it stands, which is what \<^const>\<open>AList.update\<close> does.
\<close>

record DuplicateBreakpoints =
  breakpoint :: JsonBreakpoint
  count :: nat

type_synonym RangeMap = "(string \<times> DuplicateBreakpoints) list"
type_synonym LocationPathMap = "(string \<times> RangeMap) list"
type_synonym FunctionNameMap = "(string \<times> JsonBreakpoint list) list"

text \<open>The body of the loop over the breakpoints of one branch.\<close>

definition scanBreakpoint ::
  "JsonBreakpoint \<Rightarrow> LocationPathMap \<times> FunctionNameMap \<Rightarrow> LocationPathMap \<times> FunctionNameMap" where
  "scanBreakpoint bp maps =
     (let locationPathMap = fst maps; functionNameMap = snd maps
      in case location bp of
           Some loc \<Rightarrow>
             (case functionName bp of
                Some func \<Rightarrow> maps
              | None \<Rightarrow>
                  (let path0 = path (uri loc);
                       rangeStr = toStringRange (range_loc loc);
                       rangeMap = (case map_of locationPathMap path0 of
                                     None \<Rightarrow> [] | Some rm \<Rightarrow> rm);
                       duplicateBreakpoints =
                         (case map_of rangeMap rangeStr of
                            None \<Rightarrow> \<lparr>breakpoint = bp, count = 1\<rparr>
                          | Some d \<Rightarrow> \<lparr>breakpoint = bp, count = count d + 1\<rparr>)
                   in (AList.update path0
                         (AList.update rangeStr duplicateBreakpoints rangeMap) locationPathMap,
                       functionNameMap)))
         | None \<Rightarrow>
             (case functionName bp of
                Some func \<Rightarrow>
                  (case map_of functionNameMap func of
                     None \<Rightarrow> (locationPathMap, AList.update func [bp] functionNameMap)
                   | Some foundArr \<Rightarrow>
                       (locationPathMap, AList.update func (foundArr @ [bp]) functionNameMap))
              | None \<Rightarrow> maps))"

definition needsRecreate :: "LocationPathMap \<Rightarrow> FunctionNameMap \<Rightarrow> bool" where
  "needsRecreate locationPathMap functionNameMap =
     (list_ex (\<lambda>(path0, rangeMap). list_ex (\<lambda>(rangeStr, d). count d > 1) rangeMap)
        locationPathMap \<or>
      list_ex (\<lambda>(func, value). length value > 1) functionNameMap)"

definition newBreakpoints :: "LocationPathMap \<Rightarrow> FunctionNameMap \<Rightarrow> JsonBreakpoint list" where
  "newBreakpoints locationPathMap functionNameMap =
     concat (map (\<lambda>(path0, rangeMap). map (\<lambda>(rangeStr, d). breakpoint d) rangeMap)
               locationPathMap) @
     map (\<lambda>(func, funcBreakpoints). funcBreakpoints ! 0) functionNameMap"

text \<open>
  One turn of the loop over the branches: the branch as the pass leaves it, and whether it
  was recreated. The pass runs once, at activation, on the map as it was read from the
  workspace state: its entries are plain objects and their ranges are arrays, which
  \<^verbatim>\<open>toStringRange\<close> reads by index. On such data nothing in the \<^verbatim>\<open>try\<close> block
  throws, so the \<^verbatim>\<open>catch\<close> is not reached.
\<close>

definition checkBranch :: "Branch \<Rightarrow> Branch \<times> bool" where
  "checkBranch br =
     (let maps = fold scanBreakpoint (breakpoints br) ([], [])
      in if needsRecreate (fst maps) (snd maps)
         then (br\<lparr>breakpoints := newBreakpoints (fst maps) (snd maps)\<rparr>, True)
         else (br, False))"

text \<open>\<^verbatim>\<open>!branchBreakpoints.version\<close>: the version is absent or the empty string.\<close>

definition noVersion :: "string option \<Rightarrow> bool" where
  "noVersion v = (v = None \<or> v = Some [])"

definition getWorkspaceBreakpoints ::
  "ExtensionContext \<Rightarrow> (BranchBreakpoints \<times> bool) \<times> ExtensionContext" where
  "getWorkspaceBreakpoints ctx =
     (let loaded = (case workspaceState ctx of
                      Some bbs \<Rightarrow> bbs
                    | None \<Rightarrow> getInitialBranchBreakpoints ctx);
          migrated = (if noVersion (version loaded)
                      then (let r = clearBranchBreakpoints ctx loaded
                            in ((fst r)\<lparr>version := Some ''0.0.2''\<rparr>, snd r))
                      else (loaded, ctx));
          checked = map checkBranch (branch (fst migrated))
      in (((fst migrated)\<lparr>branch := map fst checked\<rparr>, list_ex snd checked), snd migrated))"

section \<open>Concrete inputs\<close>

text \<open>Breakpoints, maps and states on which the operations are run further down.\<close>

definition sourceJson :: "string \<Rightarrow> JsonRange \<Rightarrow> bool \<Rightarrow> JsonBreakpoint" where
  "sourceJson p r en =
     \<lparr>instance_of = PlainObject, enabled = en, condition = None, hitCondition = None,
      logMessage = None, location = Some \<lparr>uri = \<lparr>path = p\<rparr>, range_loc = r\<rparr>,
      functionName = None\<rparr>"

definition sourceInstance :: "string \<Rightarrow> JsonRange \<Rightarrow> bool \<Rightarrow> JsonBreakpoint" where
  "sourceInstance p r en = (sourceJson p r en)\<lparr>instance_of := SourceBreakpointClass\<rparr>"

definition functionJson :: "string \<Rightarrow> bool \<Rightarrow> JsonBreakpoint" where
  "functionJson f en =
     \<lparr>instance_of = PlainObject, enabled = en, condition = None, hitCondition = None,
      logMessage = None, location = None, functionName = Some f\<rparr>"

definition functionInstance :: "string \<Rightarrow> bool \<Rightarrow> JsonBreakpoint" where
  "functionInstance f en = (functionJson f en)\<lparr>instance_of := FunctionBreakpointClass\<rparr>"

definition neitherSet :: JsonBreakpoint where
  "neitherSet =
     \<lparr>instance_of = PlainObject, enabled = True, condition = None, hitCondition = None,
      logMessage = None, location = None, functionName = None\<rparr>"

definition range_1_0_1_5 :: JsonRange where
  "range_1_0_1_5 = (\<lparr>line = 1, character = 0\<rparr>, \<lparr>line = 1, character = 5\<rparr>)"

definition range_2_0_2_0 :: JsonRange where
  "range_2_0_2_0 = (\<lparr>line = 2, character = 0\<rparr>, \<lparr>line = 2, character = 0\<rparr>)"

text \<open>A \<open>uri_parse\<close> that leaves every path as it is.\<close>

definition keepPath :: "string \<Rightarrow> string" where
  "keepPath p = p"

definition mapWith :: "JsonBreakpoint list \<Rightarrow> BranchBreakpoints" where
  "mapWith bps = \<lparr>version = Some ''0.0.2'', branch = [\<lparr>name = ''main'', breakpoints = bps\<rparr>]\<rparr>"

definition activationWith :: "JsonBreakpoint list \<Rightarrow> JsonBreakpoint list \<Rightarrow> bool \<Rightarrow> Activation" where
  "activationWith bps live locked =
     \<lparr>branchBreakpoints = mapWith bps, isBranchLocked = locked, head = ''main'',
      extensionContext = \<lparr>workspaceState = Some (mapWith bps),
                          packageJSON_version = Some ''0.0.2''\<rparr>,
      vscodeDebug_breakpoints = live\<rparr>"

section \<open>Notions used in the statements\<close>

text \<open>
  Two lists of breakpoints are equal as sets under the equality of section 3 of the spec
  when every breakpoint of either list has an equal counterpart in the other.
\<close>

definition equalUnderIdentity :: "JsonBreakpoint list \<Rightarrow> JsonBreakpoint list \<Rightarrow> bool" where
  "equalUnderIdentity xs ys =
     (list_all (\<lambda>x. list_ex (\<lambda>y. specEquality x y) ys) xs \<and>
      list_all (\<lambda>y. list_ex (\<lambda>x. specEquality y x) xs) ys)"

text \<open>
  The host's constructors give every \<^verbatim>\<open>SourceBreakpoint\<close> a location and every
  \<^verbatim>\<open>FunctionBreakpoint\<close> a function name. The record type does not enforce it, so it
  is a predicate.
\<close>

definition classInvariant :: "JsonBreakpoint \<Rightarrow> bool" where
  "classInvariant bp =
     ((instance_of bp = SourceBreakpointClass \<longrightarrow> location bp \<noteq> None) \<and>
      (instance_of bp = FunctionBreakpointClass \<longrightarrow> functionName bp \<noteq> None))"

text \<open>Parsing the stored path of a breakpoint gives that path back.\<close>

definition pathKept :: "(string \<Rightarrow> string) \<Rightarrow> JsonBreakpoint \<Rightarrow> bool" where
  "pathKept uri_parse bp =
     (case location bp of
        None \<Rightarrow> True
      | Some loc \<Rightarrow> uri_parse (path (uri loc)) = path (uri loc))"

text \<open>
  Of the host's objects only the instances of \<^verbatim>\<open>SourceBreakpoint\<close> carry a location.
\<close>

definition locationOnSource :: "JsonBreakpoint \<Rightarrow> bool" where
  "locationOnSource bp = (location bp \<noteq> None \<longrightarrow> instance_of bp = SourceBreakpointClass)"

section \<open>Keys of the dedup pass\<close>

text \<open>
  The key under which the scan files a breakpoint: resource path and stringified range for
  a breakpoint with a location and no function name, the function name for a breakpoint
  with a function name and no location, and no key at all for the others.
\<close>

definition locationKey :: "JsonBreakpoint \<Rightarrow> (string \<times> string) option" where
  "locationKey bp =
     (case location bp of
        None \<Rightarrow> None
      | Some loc \<Rightarrow>
          (case functionName bp of
             Some func \<Rightarrow> None
           | None \<Rightarrow> Some (path (uri loc), toStringRange (range_loc loc))))"

definition functionKey :: "JsonBreakpoint \<Rightarrow> string option" where
  "functionKey bp = (case location bp of None \<Rightarrow> functionName bp | Some loc \<Rightarrow> None)"

definition dedupKey :: "JsonBreakpoint \<Rightarrow> (string \<times> string) option \<times> string option" where
  "dedupKey bp = (locationKey bp, functionKey bp)"

text \<open>Reading the two-level map at a path and a stringified range.\<close>

definition lookupRange :: "LocationPathMap \<Rightarrow> string \<Rightarrow> string \<Rightarrow> DuplicateBreakpoints option" where
  "lookupRange locationPathMap p r =
     (case map_of locationPathMap p of None \<Rightarrow> None | Some rangeMap \<Rightarrow> map_of rangeMap r)"

text \<open>The effect of one scan step on each of the two maps.\<close>

definition scanLocation :: "JsonBreakpoint \<Rightarrow> LocationPathMap \<Rightarrow> LocationPathMap" where
  "scanLocation bp locationPathMap =
     (case locationKey bp of
        None \<Rightarrow> locationPathMap
      | Some k \<Rightarrow>
          AList.update (fst k)
            (AList.update (snd k)
               \<lparr>breakpoint = bp,
                count = (case lookupRange locationPathMap (fst k) (snd k) of
                           None \<Rightarrow> 1 | Some d \<Rightarrow> count d + 1)\<rparr>
               (case map_of locationPathMap (fst k) of None \<Rightarrow> [] | Some rm \<Rightarrow> rm))
            locationPathMap)"

definition scanFunction :: "JsonBreakpoint \<Rightarrow> FunctionNameMap \<Rightarrow> FunctionNameMap" where
  "scanFunction bp functionNameMap =
     (case functionKey bp of
        None \<Rightarrow> functionNameMap
      | Some f \<Rightarrow>
          AList.update f
            ((case map_of functionNameMap f of None \<Rightarrow> [] | Some arr \<Rightarrow> arr) @ [bp])
            functionNameMap)"

text \<open>The entries of the two-level map in the order in which the pass iterates over it.\<close>

fun locationEntries :: "LocationPathMap \<Rightarrow> ((string \<times> string) \<times> DuplicateBreakpoints) list" where
  "locationEntries [] = []"
| "locationEntries (e # rest) =
     map (\<lambda>x. ((fst e, fst x), snd x)) (snd e) @ locationEntries rest"

definition distinctKeys :: "LocationPathMap \<Rightarrow> bool" where
  "distinctKeys locationPathMap =
     (distinct (map fst locationPathMap) \<and>
      list_all (\<lambda>e. distinct (map fst (snd e))) locationPathMap)"

text \<open>The breakpoints of a list that the scan files under a given key, in scan order.\<close>

definition atLocation :: "string \<times> string \<Rightarrow> JsonBreakpoint list \<Rightarrow> JsonBreakpoint list" where
  "atLocation k bps = filter (\<lambda>b. locationKey b = Some k) bps"

definition atFunction :: "string \<Rightarrow> JsonBreakpoint list \<Rightarrow> JsonBreakpoint list" where
  "atFunction f bps = filter (\<lambda>b. functionKey b = Some f) bps"

section \<open>Properties of the identity rule\<close>

lemma position_rebuilt: "\<lparr>line = line p, character = character p\<rparr> = p"
  by (cases p) simp

lemma areRangesEqual_iff: "areRangesEqual r1 r2 = (r1 = r2)"
  by (cases r1; cases r2) (auto simp: areRangesEqual_def areLineCharsEqual_def)

lemma isEqual_iff: "isEqual r1 r2 = (r1 = r2)"
  by (cases r1; cases r2) (simp add: isEqual_def)

lemma toJsonRange_object: "toJsonRange (RangeObject r) = Inr r"
  by (cases r)
     (simp add: toJsonRange_def toJsonLineChar_def range_start_def range_end_def
        position_rebuilt)

lemma toJsonRange_array: "toJsonRange (RangeArray r) = Inl TypeError"
  by (simp add: toJsonRange_def toJsonLineChar_def range_start_def)

subsection \<open>The equality of the spec\<close>

lemma specEquality_source:
  "location a = Some la \<Longrightarrow> location b = Some lb \<Longrightarrow>
   specEquality a b = (path (uri la) = path (uri lb) \<and> range_loc la = range_loc lb)"
  by (simp add: specEquality_def)

lemma specEquality_function:
  "location a = None \<or> location b = None \<Longrightarrow>
   specEquality a b = (functionName a \<noteq> None \<and> functionName a = functionName b)"
  by (cases "functionName a"; cases "functionName b") (auto simp: specEquality_def)

lemma specEquality_sym: "specEquality a b = specEquality b a"
proof (cases "location a")
  case None
  then show ?thesis
    by (cases "functionName a"; cases "functionName b") (auto simp: specEquality_function)
next
  case (Some la)
  show ?thesis
  proof (cases "location b")
    case None
    then show ?thesis
      by (cases "functionName a"; cases "functionName b") (auto simp: specEquality_function)
  next
    case (Some lb)
    with \<open>location a = Some la\<close> show ?thesis
      by (auto simp: specEquality_source)
  qed
qed

lemma specEquality_refl:
  "isSourceBreakpoint a \<or> isFunctionBreakpoint a \<Longrightarrow> specEquality a a"
  by (cases "location a"; cases "functionName a")
     (auto simp: specEquality_function specEquality_source
        isSourceBreakpoint_def isFunctionBreakpoint_def)

text \<open>
  The equality of the spec is an equivalence relation within each kind, and a breakpoint
  with only a location is never equal to a breakpoint with only a function name.
\<close>

lemma specEquality_equivalence_within_kind:
  "(isSourceBreakpoint a \<and> isSourceBreakpoint b \<and> isSourceBreakpoint c \<longrightarrow>
      specEquality a a \<and>
      (specEquality a b \<longrightarrow> specEquality b a) \<and>
      (specEquality a b \<and> specEquality b c \<longrightarrow> specEquality a c)) \<and>
   (isFunctionBreakpoint f \<and> \<not> isSourceBreakpoint f \<and>
    isFunctionBreakpoint g \<and> \<not> isSourceBreakpoint g \<and>
    isFunctionBreakpoint h \<and> \<not> isSourceBreakpoint h \<longrightarrow>
      specEquality f f \<and>
      (specEquality f g \<longrightarrow> specEquality g f) \<and>
      (specEquality f g \<and> specEquality g h \<longrightarrow> specEquality f h)) \<and>
   (isSourceBreakpoint a \<and> \<not> isFunctionBreakpoint a \<and>
    isFunctionBreakpoint f \<and> \<not> isSourceBreakpoint f \<longrightarrow>
      \<not> specEquality a f \<and> \<not> specEquality f a)"
proof (intro conjI impI)
  assume src: "isSourceBreakpoint a \<and> isSourceBreakpoint b \<and> isSourceBreakpoint c"
  then obtain la lb lc where l: "location a = Some la" "location b = Some lb"
      "location c = Some lc"
    by (auto simp: isSourceBreakpoint_def)
  show "specEquality a a"
    using l by (simp add: specEquality_source)
  show "specEquality b a" if "specEquality a b"
    using that by (simp add: specEquality_sym)
  show "specEquality a c" if "specEquality a b \<and> specEquality b c"
    using that l by (simp add: specEquality_source)
next
  assume fn: "isFunctionBreakpoint f \<and> \<not> isSourceBreakpoint f \<and>
    isFunctionBreakpoint g \<and> \<not> isSourceBreakpoint g \<and>
    isFunctionBreakpoint h \<and> \<not> isSourceBreakpoint h"
  then have n: "location f = None" "location g = None" "location h = None"
    and s: "functionName f \<noteq> None" "functionName g \<noteq> None" "functionName h \<noteq> None"
    by (auto simp: isSourceBreakpoint_def isFunctionBreakpoint_def)
  show "specEquality f f"
    using n s by (simp add: specEquality_function)
  show "specEquality g f" if "specEquality f g"
    using that by (simp add: specEquality_sym)
  show "specEquality f h" if "specEquality f g \<and> specEquality g h"
    using that n s by (simp add: specEquality_function)
next
  assume mixed: "isSourceBreakpoint a \<and> \<not> isFunctionBreakpoint a \<and>
    isFunctionBreakpoint f \<and> \<not> isSourceBreakpoint f"
  then have "location f = None" "functionName a = None"
    by (simp_all add: isSourceBreakpoint_def isFunctionBreakpoint_def)
  then show "\<not> specEquality a f" and "\<not> specEquality f a"
    by (cases "functionName f"; simp add: specEquality_function)+
qed

subsection \<open>The code against the spec\<close>

text \<open>
  Two breakpoints of which one has no location are compared by their function names, and
  nothing is thrown.
\<close>

lemma areBreakpointsEqual_no_location:
  "location a = None \<or> location b = None \<Longrightarrow>
   areBreakpointsEqual a b = Inr (specEquality a b)"
  by (cases "functionName a"; cases "functionName b")
     (auto simp: areBreakpointsEqual_def specEquality_def isSourceBreakpoint_def
        isFunctionBreakpoint_def)

text \<open>Two breakpoints with a location at different paths are not equal, whatever they are.\<close>

lemma areBreakpointsEqual_paths_differ:
  "location a = Some la \<Longrightarrow> location b = Some lb \<Longrightarrow> path (uri la) \<noteq> path (uri lb) \<Longrightarrow>
   areBreakpointsEqual a b = Inr False"
  by (simp add: areBreakpointsEqual_def isSourceBreakpoint_def)

text \<open>Two instances of \<^verbatim>\<open>SourceBreakpoint\<close> are compared by path and range.\<close>

lemma areBreakpointsEqual_instances:
  "location a = Some la \<Longrightarrow> location b = Some lb \<Longrightarrow>
   instance_of a = SourceBreakpointClass \<Longrightarrow> instance_of b = SourceBreakpointClass \<Longrightarrow>
   areBreakpointsEqual a b = Inr (specEquality a b)"
  by (simp add: areBreakpointsEqual_def isSourceBreakpoint_def specEquality_source isEqual_iff)

text \<open>
  At the same path, as soon as one of the two is not an instance of
  \<^verbatim>\<open>SourceBreakpoint\<close>, the comparison throws.
\<close>

lemma areBreakpointsEqual_throws:
  assumes "location a = Some la" "location b = Some lb" "path (uri la) = path (uri lb)"
    and "instance_of a \<noteq> SourceBreakpointClass \<or> instance_of b \<noteq> SourceBreakpointClass"
  shows "areBreakpointsEqual a b = Inl TypeError"
proof (cases "instance_of a = SourceBreakpointClass")
  case True
  with assms show ?thesis
    by (simp add: areBreakpointsEqual_def isSourceBreakpoint_def location_range_def
          toJsonRange_object toJsonRange_array)
next
  case False
  with assms show ?thesis
    by (simp add: areBreakpointsEqual_def isSourceBreakpoint_def location_range_def
          toJsonRange_array)
qed

text \<open>Whenever the code returns, it returns what the spec says.\<close>

lemma areBreakpointsEqual_returns:
  assumes "areBreakpointsEqual a b = Inr r"
  shows "r = specEquality a b"
proof (cases "location a = None \<or> location b = None")
  case True
  with assms show ?thesis
    by (simp add: areBreakpointsEqual_no_location)
next
  case False
  then obtain la lb where l: "location a = Some la" "location b = Some lb"
    by auto
  show ?thesis
  proof (cases "path (uri la) = path (uri lb)")
    case False
    with l assms show ?thesis
      by (simp add: areBreakpointsEqual_paths_differ specEquality_source)
  next
    case True
    show ?thesis
    proof (cases "instance_of a = SourceBreakpointClass \<and> instance_of b = SourceBreakpointClass")
      case True
      with l assms show ?thesis
        by (simp add: areBreakpointsEqual_instances)
    next
      case False
      then have "instance_of a \<noteq> SourceBreakpointClass \<or> instance_of b \<noteq> SourceBreakpointClass"
        by simp
      from areBreakpointsEqual_throws [OF l True this] assms show ?thesis
        by simp
    qed
  qed
qed

text \<open>On the host's own objects the code decides the equality of the spec.\<close>

lemma areBreakpointsEqual_on_hosts:
  assumes "locationOnSource a" "locationOnSource b"
  shows "areBreakpointsEqual a b = Inr (specEquality a b)"
proof (cases "location a = None \<or> location b = None")
  case True
  then show ?thesis by (rule areBreakpointsEqual_no_location)
next
  case False
  then obtain la lb where l: "location a = Some la" "location b = Some lb"
    by auto
  with assms have "instance_of a = SourceBreakpointClass" "instance_of b = SourceBreakpointClass"
    by (simp_all add: locationOnSource_def)
  with l show ?thesis by (rule areBreakpointsEqual_instances)
qed

text \<open>
  Claim C8 does not hold on the code. A source breakpoint that was read back from the
  persisted map is a plain object, and its range is an array. Compared with itself, or
  with the host's breakpoint at the same path and range, in either order,
  \<^verbatim>\<open>areBreakpointsEqual\<close> throws a \<^verbatim>\<open>TypeError\<close>, where the equality of the spec holds.
\<close>

theorem areBreakpointsEqual_throws_on_persisted_source:
  "areBreakpointsEqual (sourceJson ''/a.ts'' range_1_0_1_5 True)
     (sourceJson ''/a.ts'' range_1_0_1_5 True) = Inl TypeError \<and>
   areBreakpointsEqual (sourceJson ''/a.ts'' range_1_0_1_5 True)
     (sourceInstance ''/a.ts'' range_1_0_1_5 True) = Inl TypeError \<and>
   areBreakpointsEqual (sourceInstance ''/a.ts'' range_1_0_1_5 True)
     (sourceJson ''/a.ts'' range_1_0_1_5 True) = Inl TypeError \<and>
   specEquality (sourceJson ''/a.ts'' range_1_0_1_5 True)
     (sourceJson ''/a.ts'' range_1_0_1_5 True) \<and>
   specEquality (sourceJson ''/a.ts'' range_1_0_1_5 True)
     (sourceInstance ''/a.ts'' range_1_0_1_5 True)"
  by (simp add: areBreakpointsEqual_def isSourceBreakpoint_def location_range_def
        toJsonRange_object toJsonRange_array specEquality_def sourceJson_def
        sourceInstance_def)

section \<open>Malformed breakpoints\<close>

lemma findOrThrow_no_match:
  "\<forall>x\<in>set xs. P x = Inr False \<Longrightarrow> findOrThrow P xs = Inr None"
  by (induction xs) simp_all

lemma findIndexOrThrow_no_match:
  "\<forall>x\<in>set xs. P x = Inr False \<Longrightarrow> findIndexOrThrow P xs = Inr (- 1)"
  by (induction xs) simp_all

text \<open>
  Claim C10. A breakpoint with neither a location nor a function name is equal to no
  breakpoint under the identity rule, not even to itself: \<^verbatim>\<open>areBreakpointsEqual\<close> returns
  false, and throws nothing. So in the reconcile operations it is never found in a stored
  list (neither by \<^verbatim>\<open>find\<close> nor by \<^verbatim>\<open>findIndex\<close>), and the scan of the dedup pass files
  it under no key.
\<close>

theorem areBreakpointsEqual_neither_set:
  "\<not> isSourceBreakpoint m \<and> \<not> isFunctionBreakpoint m \<Longrightarrow>
   areBreakpointsEqual m m = Inr False \<and>
   areBreakpointsEqual m x = Inr False \<and>
   areBreakpointsEqual x m = Inr False \<and>
   findOrThrow (\<lambda>x. areBreakpointsEqual m x) stored = Inr None \<and>
   findIndexOrThrow (\<lambda>x. areBreakpointsEqual x m) stored = Inr (- 1) \<and>
   scanBreakpoint m maps = maps"
proof -
  assume m: "\<not> isSourceBreakpoint m \<and> \<not> isFunctionBreakpoint m"
  then have never: "areBreakpointsEqual m y = Inr False" "areBreakpointsEqual y m = Inr False"
    for y
    by (simp_all add: areBreakpointsEqual_def)
  have "findOrThrow (\<lambda>x. areBreakpointsEqual m x) stored = Inr None"
    by (rule findOrThrow_no_match) (simp add: never)
  moreover have "findIndexOrThrow (\<lambda>x. areBreakpointsEqual x m) stored = Inr (- 1)"
    by (rule findIndexOrThrow_no_match) (simp add: never)
  moreover have "scanBreakpoint m maps = maps"
    using m by (simp add: scanBreakpoint_def isSourceBreakpoint_def isFunctionBreakpoint_def)
  ultimately show ?thesis
    using never by simp
qed

theorem areBreakpointsEqual_neither_set_witness:
  "\<not> isSourceBreakpoint neitherSet \<and> \<not> isFunctionBreakpoint neitherSet \<and>
   areBreakpointsEqual neitherSet neitherSet = Inr False \<and>
   findOrThrow (\<lambda>x. areBreakpointsEqual neitherSet x) [neitherSet] = Inr None \<and>
   findIndexOrThrow (\<lambda>x. areBreakpointsEqual x neitherSet) [neitherSet] = Inr (- 1)"
  using areBreakpointsEqual_neither_set [of neitherSet neitherSet "[neitherSet]"]
  by (simp add: isSourceBreakpoint_def isFunctionBreakpoint_def neitherSet_def)

section \<open>The feedback-loop guard\<close>

text \<open>
  Claim C6. While the flag \<^verbatim>\<open>isBranchLocked\<close> is set, \<^verbatim>\<open>getUpdatedBreakpoints\<close>
  returns no update, whatever the event, the map and the branch name are, and the listener
  throws nothing and leaves the whole state, the map and the persisted value included, as
  it was.
\<close>

theorem getUpdatedBreakpoints_locked:
  "isBranchLocked s \<Longrightarrow>
   getUpdatedBreakpoints e True bbs head0 = Inr None \<and>
   getUpdatedBreakpoints e (isBranchLocked s) (branchBreakpoints s) (head s) = Inr None \<and>
   onDidChangeBreakpoints e s = (None, s)"
  by (simp add: getUpdatedBreakpoints_def onDidChangeBreakpoints_def)

theorem getUpdatedBreakpoints_locked_witness:
  "isBranchLocked (activationWith [sourceJson ''/a.ts'' range_1_0_1_5 True] [] True) \<and>
   onDidChangeBreakpoints
     \<lparr>added = [functionJson ''main'' True], changed = [],
      removed = [sourceJson ''/a.ts'' range_1_0_1_5 True]\<rparr>
     (activationWith [sourceJson ''/a.ts'' range_1_0_1_5 True] [] True) =
   (None, activationWith [sourceJson ''/a.ts'' range_1_0_1_5 True] [] True)"
  using getUpdatedBreakpoints_locked
    [of "activationWith [sourceJson ''/a.ts'' range_1_0_1_5 True] [] True"]
  by (simp add: activationWith_def)

section \<open>Release of the flag\<close>

text \<open>
  Claim C7. Whatever the state and the stored list are, the flag \<^verbatim>\<open>isBranchLocked\<close>
  is false in the state that \<^verbatim>\<open>setBreakpoints\<close> leaves: after the normal completion,
  after the branch that finds no stored breakpoints, and when \<^verbatim>\<open>getBreakpoint\<close> or a
  comparison throws.
\<close>

theorem setBreakpoints_releases_lock:
  "isBranchLocked (snd (setBreakpoints uri_parse s)) = False"
  by (simp add: setBreakpoints_def Let_def)

text \<open>The exits are taken: each of the following runs leaves through another one.\<close>

lemma getBreakpoint_sourceJson:
  "getBreakpoint keepPath (sourceJson p r e) = Inr (sourceInstance p r e)"
  by (cases r)
     (simp add: getBreakpoint_def sourceJson_def sourceInstance_def keepPath_def
        position_rebuilt)

lemma setBreakpoints_activationWith:
  "bps \<noteq> [] \<Longrightarrow> map_getBreakpoint uri_parse bps = Inr new \<Longrightarrow>
   withoutCounterpart live new = Inr toRemove \<Longrightarrow>
   withoutCounterpart new live = Inr toAdd \<Longrightarrow>
   setBreakpoints uri_parse (activationWith bps live locked) =
   (None, activationWith bps (removeBreakpoints toRemove (addBreakpoints toAdd live)) False)"
  by (simp add: setBreakpoints_def setBreakpoints_try_def activationWith_def mapWith_def Let_def)

lemma setBreakpoints_activationWith_throw:
  "bps \<noteq> [] \<Longrightarrow> map_getBreakpoint uri_parse bps = Inl e \<Longrightarrow>
   setBreakpoints uri_parse (activationWith bps live locked) =
   (Some e, activationWith bps live False)"
  by (simp add: setBreakpoints_def setBreakpoints_try_def activationWith_def mapWith_def Let_def)

lemma setBreakpoints_activationWith_compare_throw:
  "bps \<noteq> [] \<Longrightarrow> map_getBreakpoint uri_parse bps = Inr new \<Longrightarrow>
   withoutCounterpart live new = Inl e \<Longrightarrow>
   setBreakpoints uri_parse (activationWith bps live locked) =
   (Some e, activationWith bps live False)"
  by (simp add: setBreakpoints_def setBreakpoints_try_def activationWith_def mapWith_def Let_def)

lemma setBreakpoints_exit_normal:
  "setBreakpoints keepPath
     (activationWith [sourceJson ''/a.ts'' range_1_0_1_5 True] [] False) =
   (None, activationWith [sourceJson ''/a.ts'' range_1_0_1_5 True]
            [sourceInstance ''/a.ts'' range_1_0_1_5 True] False)"
proof -
  have m: "map_getBreakpoint keepPath [sourceJson ''/a.ts'' range_1_0_1_5 True] =
      Inr [sourceInstance ''/a.ts'' range_1_0_1_5 True]"
    by (simp add: getBreakpoint_sourceJson)
  have r: "withoutCounterpart [] [sourceInstance ''/a.ts'' range_1_0_1_5 True] = Inr []"
    by simp
  have a: "withoutCounterpart [sourceInstance ''/a.ts'' range_1_0_1_5 True] [] =
      Inr [sourceInstance ''/a.ts'' range_1_0_1_5 True]"
    by simp
  have "[sourceJson ''/a.ts'' range_1_0_1_5 True] \<noteq> []"
    by simp
  from setBreakpoints_activationWith [OF this m r a] show ?thesis
    by (simp add: addBreakpoints_def removeBreakpoints_def)
qed

lemma setBreakpoints_exit_empty:
  "setBreakpoints keepPath (activationWith [] [functionInstance ''main'' True] False) =
   (None, activationWith [] [functionInstance ''main'' True] False)"
  by (simp add: setBreakpoints_def setBreakpoints_try_def activationWith_def mapWith_def
        Let_def)

lemma setBreakpoints_exit_throw:
  "setBreakpoints keepPath
     (activationWith [neitherSet] [functionInstance ''main'' True] False) =
   (Some (Error ''location or functionName has not been defined on the breakpoint.''),
    activationWith [neitherSet] [functionInstance ''main'' True] False)"
  by (rule setBreakpoints_activationWith_throw)
     (simp_all add: getBreakpoint_def neitherSet_def)

text \<open>
  The host holds its own objects only. Were a plain object with a location among them, the
  comparison with the stored breakpoint at the same path would throw, and the flag would
  be released on that exit as well.
\<close>

lemma setBreakpoints_exit_type_error:
  "setBreakpoints keepPath
     (activationWith [sourceJson ''/a.ts'' range_1_0_1_5 True]
        [sourceJson ''/a.ts'' range_1_0_1_5 True] False) =
   (Some TypeError,
    activationWith [sourceJson ''/a.ts'' range_1_0_1_5 True]
      [sourceJson ''/a.ts'' range_1_0_1_5 True] False)"
proof -
  have "areBreakpointsEqual (sourceJson ''/a.ts'' range_1_0_1_5 True)
      (sourceInstance ''/a.ts'' range_1_0_1_5 True) = Inl TypeError"
    by (rule areBreakpointsEqual_throws) (simp_all add: sourceJson_def sourceInstance_def)
  then have w: "withoutCounterpart [sourceJson ''/a.ts'' range_1_0_1_5 True]
      [sourceInstance ''/a.ts'' range_1_0_1_5 True] = Inl TypeError"
    by simp
  have m: "map_getBreakpoint keepPath [sourceJson ''/a.ts'' range_1_0_1_5 True] =
      Inr [sourceInstance ''/a.ts'' range_1_0_1_5 True]"
    by (simp add: getBreakpoint_sourceJson)
  have "[sourceJson ''/a.ts'' range_1_0_1_5 True] \<noteq> []"
    by simp
  from this m w show ?thesis
    by (rule setBreakpoints_activationWith_compare_throw)
qed

section \<open>The clear-map command\<close>

text \<open>
  Claim C9, as the code has it. After the clear-map command the map in memory is the empty
  branch list with the version of the extension, and the value persisted under the key is
  erased: nothing is stored there. The next load then starts from an empty branch list.
\<close>

theorem clearMapCommand_resets:
  "branchBreakpoints (clearMapCommand s) =
     \<lparr>version = packageJSON_version (extensionContext s), branch = []\<rparr> \<and>
   workspaceState (extensionContext (clearMapCommand s)) = None \<and>
   branch (fst (fst (getWorkspaceBreakpoints (extensionContext (clearMapCommand s))))) = []"
  by (simp add: clearMapCommand_def clearBranchBreakpoints_def getInitialBranchBreakpoints_def
        getWorkspaceBreakpoints_def Let_def)

text \<open>
  The persisted value is not an empty branch list with the current version: on a state
  whose extension version is \<open>0.0.2\<close> the key holds nothing after the command.
\<close>

theorem clearMapCommand_persisted_counterexample:
  "workspaceState (extensionContext (clearMapCommand
      (activationWith [sourceJson ''/a.ts'' range_1_0_1_5 True] [] False))) \<noteq>
   Some \<lparr>version = Some ''0.0.2'', branch = []\<rparr>"
  by (simp add: clearMapCommand_def clearBranchBreakpoints_def activationWith_def Let_def)

section \<open>Host events without a stored counterpart\<close>

text \<open>
  \<^verbatim>\<open>findIndex\<close> answers \<open>-1\<close> when nothing matches, and the loops pass that index on
  to \<^verbatim>\<open>splice\<close> and \<^verbatim>\<open>slice\<close>, where it counts from the end of the array.
\<close>

lemma splice1_minus_one: "splice1 (- 1) xs = butlast xs"
proof (cases "xs = []")
  case True
  then show ?thesis by (simp add: splice1_def)
next
  case False
  then have "nat (int (length xs) - 1) = length xs - 1"
    by (simp add: nat_diff_distrib')
  with False show ?thesis
    by (simp add: splice1_def Let_def butlast_conv_take min_def max_def)
qed

lemma slice_to_minus_one: "slice 0 (- 1) xs = butlast xs"
proof (cases "xs = []")
  case True
  then show ?thesis by (simp add: slice_def)
next
  case False
  then have "nat (int (length xs) - 1) = length xs - 1"
    by (simp add: nat_diff_distrib')
  with False show ?thesis
    by (simp add: slice_def Let_def butlast_conv_take min_def max_def)
qed

lemma slice_all: "slice 0 (int (length xs)) xs = xs"
  by (simp add: slice_def Let_def)

text \<open>
  A removed breakpoint that matches no stored entry deletes the last stored entry, and a
  changed one drops the last entry and inserts itself in front of a copy of the rest.
\<close>

lemma removedLoop_no_match:
  "\<forall>x\<in>set stored. areBreakpointsEqual x b = Inr False \<Longrightarrow>
   removedLoop [b] stored = (None, butlast stored)"
  by (simp add: findIndexOrThrow_no_match splice1_minus_one)

lemma changedLoop_no_match:
  assumes "\<forall>x\<in>set stored. areBreakpointsEqual x b = Inr False"
  shows "changedLoop [b] stored = (None, butlast (butlast stored) @ [b] @ butlast stored)"
proof -
  have i: "findIndexOrThrow (\<lambda>x. areBreakpointsEqual x b) stored = Inr (- 1)"
    using assms by (rule findIndexOrThrow_no_match)
  have s: "slice 0 (int (length (butlast stored))) (butlast stored) = butlast stored"
    by (rule slice_all)
  show ?thesis
    by (simp add: i splice1_minus_one slice_to_minus_one Let_def s del: length_butlast)
qed

lemma getUpdatedBreakpoints_mapWith:
  "addedLoop a bps = (None, bps1) \<Longrightarrow>
   changedLoop c bps1 = (None, bps2) \<Longrightarrow>
   removedLoop r bps2 = (None, bps3) \<Longrightarrow>
   getUpdatedBreakpoints \<lparr>added = a, changed = c, removed = r\<rparr> False (mapWith bps) ''main'' =
   Inr (Some (mapWith bps3))"
  by (simp add: getUpdatedBreakpoints_def mapWith_def Let_def)

lemma source_paths_differ:
  "p \<noteq> q \<Longrightarrow>
   areBreakpointsEqual (sourceInstance p r e1) (sourceInstance q r' e2) = Inr False"
  by (simp add: areBreakpointsEqual_def isSourceBreakpoint_def sourceInstance_def
        sourceJson_def)

text \<open>
  Claim C1 does not hold on the code. The stored list of the current branch holds one
  breakpoint in \<open>/a.ts\<close>; the event removes, or changes, a breakpoint in \<open>/b.ts\<close>, which has
  no equal counterpart in the stored list. The removal empties the stored list, and the
  change replaces the stored breakpoint by the one of the event.
\<close>

theorem getUpdatedBreakpoints_no_match_changes_list:
  "areBreakpointsEqual (sourceInstance ''/a.ts'' range_1_0_1_5 True)
     (sourceInstance ''/b.ts'' range_2_0_2_0 True) = Inr False \<and>
   getUpdatedBreakpoints
     \<lparr>added = [], changed = [], removed = [sourceInstance ''/b.ts'' range_2_0_2_0 True]\<rparr>
     False (mapWith [sourceInstance ''/a.ts'' range_1_0_1_5 True]) ''main'' =
   Inr (Some (mapWith [])) \<and>
   getUpdatedBreakpoints
     \<lparr>added = [], changed = [sourceInstance ''/b.ts'' range_2_0_2_0 True], removed = []\<rparr>
     False (mapWith [sourceInstance ''/a.ts'' range_1_0_1_5 True]) ''main'' =
   Inr (Some (mapWith [sourceInstance ''/b.ts'' range_2_0_2_0 True]))"
proof -
  have ne: "areBreakpointsEqual (sourceInstance ''/a.ts'' range_1_0_1_5 True)
       (sourceInstance ''/b.ts'' range_2_0_2_0 True) = Inr False"
    by (rule source_paths_differ) simp
  then have nm: "\<forall>x\<in>set [sourceInstance ''/a.ts'' range_1_0_1_5 True].
      areBreakpointsEqual x (sourceInstance ''/b.ts'' range_2_0_2_0 True) = Inr False"
    by simp
  have r: "removedLoop [sourceInstance ''/b.ts'' range_2_0_2_0 True]
             [sourceInstance ''/a.ts'' range_1_0_1_5 True] = (None, [])"
    using removedLoop_no_match [OF nm] by simp
  have c: "changedLoop [sourceInstance ''/b.ts'' range_2_0_2_0 True]
             [sourceInstance ''/a.ts'' range_1_0_1_5 True] =
           (None, [sourceInstance ''/b.ts'' range_2_0_2_0 True])"
    using changedLoop_no_match [OF nm] by simp
  have a0: "addedLoop [] xs = (None, xs)" for xs
    by simp
  have c0: "changedLoop [] xs = (None, xs)" for xs
    by simp
  have r0: "removedLoop [] xs = (None, xs)" for xs
    by simp
  have 1: "getUpdatedBreakpoints
     \<lparr>added = [], changed = [], removed = [sourceInstance ''/b.ts'' range_2_0_2_0 True]\<rparr>
     False (mapWith [sourceInstance ''/a.ts'' range_1_0_1_5 True]) ''main'' =
     Inr (Some (mapWith []))"
    by (rule getUpdatedBreakpoints_mapWith [OF a0 c0 r])
  have 2: "getUpdatedBreakpoints
     \<lparr>added = [], changed = [sourceInstance ''/b.ts'' range_2_0_2_0 True], removed = []\<rparr>
     False (mapWith [sourceInstance ''/a.ts'' range_1_0_1_5 True]) ''main'' =
     Inr (Some (mapWith [sourceInstance ''/b.ts'' range_2_0_2_0 True]))"
    by (rule getUpdatedBreakpoints_mapWith [OF a0 c r0])
  from ne 1 2 show ?thesis by simp
qed

section \<open>Applying the stored breakpoints of a branch\<close>

lemma map_getBreakpoint_list_all2:
  "map_getBreakpoint uri_parse js = Inr ns \<Longrightarrow>
   list_all2 (\<lambda>j n. getBreakpoint uri_parse j = Inr n) js ns"
proof (induction js arbitrary: ns)
  case Nil
  then show ?case by simp
next
  case (Cons j js)
  then show ?case
    by (auto split: sum.splits)
qed

lemma getBreakpoint_attributes:
  "getBreakpoint uri_parse j = Inr n \<Longrightarrow>
   enabled n = enabled j \<and> condition n = condition j \<and>
   hitCondition n = hitCondition j \<and> logMessage n = logMessage j"
  by (auto simp: getBreakpoint_def Let_def split: if_splits option.splits)

lemma getBreakpoint_kind:
  "getBreakpoint uri_parse j = Inr n \<Longrightarrow> classInvariant j \<Longrightarrow>
   isSourceBreakpoint n \<or> isFunctionBreakpoint n"
  by (auto simp: getBreakpoint_def Let_def classInvariant_def isSourceBreakpoint_def
        isFunctionBreakpoint_def split: if_splits option.splits)

text \<open>What is equal to a materialised entry is equal to the stored entry it was made of.\<close>

lemma getBreakpoint_same_identity:
  assumes g: "getBreakpoint uri_parse j = Inr n" and k: "pathKept uri_parse j"
    and e: "specEquality b n"
  shows "specEquality b j"
proof (cases "instance_of j = SourceBreakpointClass \<or> instance_of j = FunctionBreakpointClass")
  case True
  with g have "n = j" by (simp add: getBreakpoint_def)
  with e show ?thesis by simp
next
  case False
  show ?thesis
  proof (cases "location j")
    case (Some loc)
    with g False k have n: "location n = Some \<lparr>uri = \<lparr>path = path (uri loc)\<rparr>,
        range_loc = range_loc loc\<rparr>" "functionName n = None"
      by (auto simp: getBreakpoint_def Let_def pathKept_def position_rebuilt)
    show ?thesis
    proof (cases "location b")
      case None
      with e n show ?thesis
        by (cases "functionName b") (simp_all add: specEquality_function)
    next
      case (Some lb)
      with e n \<open>location j = Some loc\<close> show ?thesis
        by (simp add: specEquality_source)
    qed
  next
    case None
    with g False have n: "location n = None" "functionName n = functionName j"
      by (auto simp: getBreakpoint_def Let_def split: option.splits if_splits)
    with e None show ?thesis
      by (cases "functionName b"; cases "functionName j")
         (simp_all add: specEquality_function)
  qed
qed

lemma set_removeBreakpoints: "set (removeBreakpoints r live) = set live - set r"
  by (auto simp: removeBreakpoints_def)

lemma set_addBreakpoints: "set (addBreakpoints a live) = set live \<union> set a"
  by (auto simp: addBreakpoints_def)

subsection \<open>The two loops of the diff\<close>

lemma findOrThrow_None:
  "findOrThrow P xs = Inr None \<Longrightarrow> x \<in> set xs \<Longrightarrow> P x = Inr False"
  by (induction xs) (auto split: sum.splits if_splits)

lemma findOrThrow_Some:
  "findOrThrow P xs = Inr (Some y) \<Longrightarrow> y \<in> set xs \<and> P y = Inr True"
  by (induction xs) (auto split: sum.splits if_splits)

lemma withoutCounterpart_kept:
  "withoutCounterpart bs others = Inr rs \<Longrightarrow> b \<in> set rs \<Longrightarrow>
   b \<in> set bs \<and> (\<forall>x\<in>set others. areBreakpointsEqual b x = Inr False)"
proof (induction bs arbitrary: rs)
  case Nil
  then show ?case by simp
next
  case (Cons a bs)
  from Cons.prems(1) obtain found rest where
    f: "findOrThrow (\<lambda>x. areBreakpointsEqual a x) others = Inr found"
    and r: "withoutCounterpart bs others = Inr rest"
    and rs: "rs = (if found = None then a # rest else rest)"
    by (auto split: sum.splits)
  show ?case
  proof (cases "b \<in> set rest")
    case True
    with Cons.IH [OF r] show ?thesis by simp
  next
    case False
    with rs Cons.prems(2) have "b = a" "found = None"
      by (auto split: if_splits)
    with f show ?thesis
      by (auto dest: findOrThrow_None)
  qed
qed

lemma withoutCounterpart_dropped:
  "withoutCounterpart bs others = Inr rs \<Longrightarrow> b \<in> set bs \<Longrightarrow> b \<notin> set rs \<Longrightarrow>
   \<exists>x\<in>set others. areBreakpointsEqual b x = Inr True"
proof (induction bs arbitrary: rs)
  case Nil
  then show ?case by simp
next
  case (Cons a bs)
  from Cons.prems(1) obtain found rest where
    f: "findOrThrow (\<lambda>x. areBreakpointsEqual a x) others = Inr found"
    and r: "withoutCounterpart bs others = Inr rest"
    and rs: "rs = (if found = None then a # rest else rest)"
    by (auto split: sum.splits)
  show ?case
  proof (cases "b = a")
    case True
    with rs Cons.prems(3) obtain y where "found = Some y"
      by (cases found) auto
    with f True show ?thesis
      using findOrThrow_Some [of "\<lambda>x. areBreakpointsEqual a x" others y] by blast
  next
    case False
    with Cons.prems(2) have "b \<in> set bs" by simp
    moreover from rs Cons.prems(3) have "b \<notin> set rest"
      by (auto split: if_splits)
    ultimately show ?thesis
      using Cons.IH [OF r] by blast
  qed
qed

text \<open>On the host's own objects no comparison throws, so both loops run to their end.\<close>

lemma findOrThrow_on_hosts:
  "locationOnSource b \<Longrightarrow> list_all locationOnSource xs \<Longrightarrow>
   \<exists>r. findOrThrow (\<lambda>x. areBreakpointsEqual b x) xs = Inr r"
  by (induction xs) (simp_all add: areBreakpointsEqual_on_hosts)

lemma withoutCounterpart_on_hosts:
  "list_all locationOnSource bs \<Longrightarrow> list_all locationOnSource others \<Longrightarrow>
   \<exists>rs. withoutCounterpart bs others = Inr rs"
proof (induction bs)
  case Nil
  show ?case by simp
next
  case (Cons a bs)
  then obtain rest where "withoutCounterpart bs others = Inr rest"
    by auto
  moreover from Cons.prems obtain found where
    "findOrThrow (\<lambda>x. areBreakpointsEqual a x) others = Inr found"
    using findOrThrow_on_hosts [of a others] by auto
  ultimately show ?case by simp
qed

subsection \<open>What a run leaves in the host\<close>

lemma setBreakpoints_run:
  assumes "find (\<lambda>x. name x = head s) (branch (branchBreakpoints s)) = Some br"
    and "breakpoints br \<noteq> []"
    and "map_getBreakpoint uri_parse (breakpoints br) = Inr new"
  shows "setBreakpoints uri_parse s =
     (case withoutCounterpart (vscodeDebug_breakpoints s) new of
        Inl e \<Rightarrow> (Some e, s\<lparr>isBranchLocked := False\<rparr>)
      | Inr toRemove \<Rightarrow>
          (case withoutCounterpart new (vscodeDebug_breakpoints s) of
             Inl e \<Rightarrow> (Some e, s\<lparr>isBranchLocked := False\<rparr>)
           | Inr toAdd \<Rightarrow>
               (None,
                s\<lparr>vscodeDebug_breakpoints :=
                    removeBreakpoints toRemove (addBreakpoints toAdd (vscodeDebug_breakpoints s)),
                  isBranchLocked := False\<rparr>)))"
  using assms
  by (simp add: setBreakpoints_def setBreakpoints_try_def Let_def split: sum.splits)

lemma setBreakpoints_completed:
  assumes f: "find (\<lambda>x. name x = head s) (branch (branchBreakpoints s)) = Some br"
    and ne: "breakpoints br \<noteq> []"
    and m: "map_getBreakpoint uri_parse (breakpoints br) = Inr new"
    and fin: "fst (setBreakpoints uri_parse s) = None"
  obtains toRemove toAdd where
    "withoutCounterpart (vscodeDebug_breakpoints s) new = Inr toRemove"
    "withoutCounterpart new (vscodeDebug_breakpoints s) = Inr toAdd"
    "set (vscodeDebug_breakpoints (snd (setBreakpoints uri_parse s))) =
       (set (vscodeDebug_breakpoints s) \<union> set toAdd) - set toRemove"
proof -
  from fin obtain toRemove where
    r: "withoutCounterpart (vscodeDebug_breakpoints s) new = Inr toRemove"
    unfolding setBreakpoints_run [OF f ne m]
    by (cases "withoutCounterpart (vscodeDebug_breakpoints s) new") auto
  from fin obtain toAdd where
    a: "withoutCounterpart new (vscodeDebug_breakpoints s) = Inr toAdd"
    unfolding setBreakpoints_run [OF f ne m] r
    by (cases "withoutCounterpart new (vscodeDebug_breakpoints s)") auto
  have "set (vscodeDebug_breakpoints (snd (setBreakpoints uri_parse s))) =
       (set (vscodeDebug_breakpoints s) \<union> set toAdd) - set toRemove"
    unfolding setBreakpoints_run [OF f ne m] r a
    by (simp add: set_removeBreakpoints set_addBreakpoints)
  with r a show ?thesis by (rule that)
qed

text \<open>
  When the host holds its own objects and the materialised entries are such objects too,
  the run completes.
\<close>

lemma setBreakpoints_completes:
  assumes f: "find (\<lambda>x. name x = head s) (branch (branchBreakpoints s)) = Some br"
    and ne: "breakpoints br \<noteq> []"
    and m: "map_getBreakpoint uri_parse (breakpoints br) = Inr new"
    and cur: "list_all locationOnSource (vscodeDebug_breakpoints s)"
    and newh: "list_all locationOnSource new"
  shows "fst (setBreakpoints uri_parse s) = None"
proof -
  from withoutCounterpart_on_hosts [OF cur newh] obtain toRemove where
    "withoutCounterpart (vscodeDebug_breakpoints s) new = Inr toRemove" ..
  moreover from withoutCounterpart_on_hosts [OF newh cur] obtain toAdd where
    "withoutCounterpart new (vscodeDebug_breakpoints s) = Inr toAdd" ..
  ultimately show ?thesis
    unfolding setBreakpoints_run [OF f ne m] by simp
qed

lemma list_all2_left: "list_all2 R xs ys \<Longrightarrow> x \<in> set xs \<Longrightarrow> \<exists>y\<in>set ys. R x y"
  by (induction rule: list_all2_induct) auto

lemma list_all2_right: "list_all2 R xs ys \<Longrightarrow> y \<in> set ys \<Longrightarrow> \<exists>x\<in>set xs. R x y"
  by (induction rule: list_all2_induct) auto

lemma find_main_mapWith:
  "find (\<lambda>x. name x = head (activationWith bps live locked))
     (branch (branchBreakpoints (activationWith bps live locked))) =
   Some \<lparr>name = ''main'', breakpoints = bps\<rparr>"
  by (simp add: activationWith_def mapWith_def)

lemma vscodeDebug_breakpoints_activationWith:
  "vscodeDebug_breakpoints (activationWith bps live locked) = live"
  by (simp add: activationWith_def)

text \<open>
  Claim C3, as the code has it. When \<^verbatim>\<open>setBreakpoints\<close> completes for a branch with a
  non-empty stored list, every breakpoint of the host's live set is of one of two kinds.
  Either it was in the host before the call and the code found it equal to a materialised
  stored entry: it is the host's own object, left as it was, so it keeps the attributes it
  had in the host. Or the code found no breakpoint of the host equal to it: then it is what
  \<^verbatim>\<open>getBreakpoint\<close> made of a stored entry, and it carries the \<^verbatim>\<open>enabled\<close>,
  \<^verbatim>\<open>condition\<close>, \<^verbatim>\<open>hitCondition\<close> and \<^verbatim>\<open>logMessage\<close> of that entry.
\<close>

theorem setBreakpoints_attributes:
  assumes f: "find (\<lambda>x. name x = head s) (branch (branchBreakpoints s)) = Some br"
    and ne: "breakpoints br \<noteq> []"
    and m: "map_getBreakpoint uri_parse (breakpoints br) = Inr new"
    and fin: "fst (setBreakpoints uri_parse s) = None"
    and b: "b \<in> set (vscodeDebug_breakpoints (snd (setBreakpoints uri_parse s)))"
  shows "(b \<in> set (vscodeDebug_breakpoints s) \<and>
          (\<exists>n\<in>set new. areBreakpointsEqual b n = Inr True)) \<or>
         ((\<forall>c\<in>set (vscodeDebug_breakpoints s). areBreakpointsEqual b c = Inr False) \<and>
          (\<exists>j\<in>set (breakpoints br).
              getBreakpoint uri_parse j = Inr b \<and>
              enabled b = enabled j \<and> condition b = condition j \<and>
              hitCondition b = hitCondition j \<and> logMessage b = logMessage j))"
proof -
  from setBreakpoints_completed [OF f ne m fin] obtain toRemove toAdd where
    r: "withoutCounterpart (vscodeDebug_breakpoints s) new = Inr toRemove"
    and a: "withoutCounterpart new (vscodeDebug_breakpoints s) = Inr toAdd"
    and live: "set (vscodeDebug_breakpoints (snd (setBreakpoints uri_parse s))) =
       (set (vscodeDebug_breakpoints s) \<union> set toAdd) - set toRemove"
    by blast
  show ?thesis
  proof (cases "b \<in> set (vscodeDebug_breakpoints s)")
    case True
    moreover from b live have "b \<notin> set toRemove" by simp
    ultimately have "\<exists>n\<in>set new. areBreakpointsEqual b n = Inr True"
      by (rule withoutCounterpart_dropped [OF r])
    with True show ?thesis by blast
  next
    case False
    with b live have "b \<in> set toAdd" by simp
    from withoutCounterpart_kept [OF a this]
    have new: "b \<in> set new"
      and none: "\<forall>c\<in>set (vscodeDebug_breakpoints s). areBreakpointsEqual b c = Inr False"
      by simp_all
    from list_all2_right [OF map_getBreakpoint_list_all2 [OF m] new]
    obtain j where "j \<in> set (breakpoints br)" "getBreakpoint uri_parse j = Inr b"
      by blast
    then have "\<exists>j\<in>set (breakpoints br).
              getBreakpoint uri_parse j = Inr b \<and>
              enabled b = enabled j \<and> condition b = condition j \<and>
              hitCondition b = hitCondition j \<and> logMessage b = logMessage j"
      using getBreakpoint_attributes [of uri_parse j b] by blast
    with none show ?thesis by blast
  qed
qed

theorem setBreakpoints_attributes_witness:
  "find (\<lambda>x. name x = head (activationWith [sourceJson ''/a.ts'' range_1_0_1_5 True] [] False))
     (branch (branchBreakpoints
        (activationWith [sourceJson ''/a.ts'' range_1_0_1_5 True] [] False))) =
     Some \<lparr>name = ''main'', breakpoints = [sourceJson ''/a.ts'' range_1_0_1_5 True]\<rparr> \<and>
   map_getBreakpoint keepPath [sourceJson ''/a.ts'' range_1_0_1_5 True] =
     Inr [sourceInstance ''/a.ts'' range_1_0_1_5 True] \<and>
   fst (setBreakpoints keepPath
        (activationWith [sourceJson ''/a.ts'' range_1_0_1_5 True] [] False)) = None \<and>
   sourceInstance ''/a.ts'' range_1_0_1_5 True \<in>
     set (vscodeDebug_breakpoints (snd (setBreakpoints keepPath
        (activationWith [sourceJson ''/a.ts'' range_1_0_1_5 True] [] False)))) \<and>
   getBreakpoint keepPath (sourceJson ''/a.ts'' range_1_0_1_5 True) =
     Inr (sourceInstance ''/a.ts'' range_1_0_1_5 True) \<and>
   enabled (sourceInstance ''/a.ts'' range_1_0_1_5 True) =
     enabled (sourceJson ''/a.ts'' range_1_0_1_5 True)"
proof -
  let ?s = "activationWith [sourceJson ''/a.ts'' range_1_0_1_5 True] [] False"
  let ?br = "\<lparr>name = ''main'', breakpoints = [sourceJson ''/a.ts'' range_1_0_1_5 True]\<rparr>"
  have f: "find (\<lambda>x. name x = head ?s) (branch (branchBreakpoints ?s)) = Some ?br"
    by (rule find_main_mapWith)
  have ne: "breakpoints ?br \<noteq> []" by simp
  have m: "map_getBreakpoint keepPath (breakpoints ?br) =
      Inr [sourceInstance ''/a.ts'' range_1_0_1_5 True]"
    by (simp add: getBreakpoint_sourceJson)
  have run: "setBreakpoints keepPath ?s =
      (None, activationWith [sourceJson ''/a.ts'' range_1_0_1_5 True]
            [sourceInstance ''/a.ts'' range_1_0_1_5 True] False)"
    by (rule setBreakpoints_exit_normal)
  have fin: "fst (setBreakpoints keepPath ?s) = None"
    by (simp add: run)
  have b: "sourceInstance ''/a.ts'' range_1_0_1_5 True \<in>
      set (vscodeDebug_breakpoints (snd (setBreakpoints keepPath ?s)))"
    by (simp add: run vscodeDebug_breakpoints_activationWith)
  from setBreakpoints_attributes [OF f ne m fin b] f m fin b show ?thesis
    by (simp add: getBreakpoint_sourceJson) (simp add: sourceInstance_def sourceJson_def)
qed

text \<open>
  The claim as it is written fails for a breakpoint that the host already has: the stored
  entry for \<open>/a.ts\<close> is enabled, the host's breakpoint at the same place is disabled, and
  after the call the host still holds its own, disabled breakpoint.
\<close>

theorem setBreakpoints_present_keeps_host_attributes_counterexample:
  "vscodeDebug_breakpoints (snd (setBreakpoints keepPath
      (activationWith [sourceJson ''/a.ts'' range_1_0_1_5 True]
         [sourceInstance ''/a.ts'' range_1_0_1_5 False] False))) =
   [sourceInstance ''/a.ts'' range_1_0_1_5 False] \<and>
   specEquality (sourceInstance ''/a.ts'' range_1_0_1_5 False)
     (sourceJson ''/a.ts'' range_1_0_1_5 True) \<and>
   enabled (sourceInstance ''/a.ts'' range_1_0_1_5 False) \<noteq>
   enabled (sourceJson ''/a.ts'' range_1_0_1_5 True)"
proof -
  have e: "areBreakpointsEqual (sourceInstance p r e1) (sourceInstance p r e2) = Inr True"
    for p r e1 e2
    by (simp add: areBreakpointsEqual_def isSourceBreakpoint_def isEqual_iff
          sourceInstance_def sourceJson_def)
  have m: "map_getBreakpoint keepPath [sourceJson ''/a.ts'' range_1_0_1_5 True] =
      Inr [sourceInstance ''/a.ts'' range_1_0_1_5 True]"
    by (simp add: getBreakpoint_sourceJson)
  have r: "withoutCounterpart [sourceInstance ''/a.ts'' range_1_0_1_5 False]
      [sourceInstance ''/a.ts'' range_1_0_1_5 True] = Inr []"
    by (simp add: e)
  have a: "withoutCounterpart [sourceInstance ''/a.ts'' range_1_0_1_5 True]
      [sourceInstance ''/a.ts'' range_1_0_1_5 False] = Inr []"
    by (simp add: e)
  have "[sourceJson ''/a.ts'' range_1_0_1_5 True] \<noteq> []"
    by simp
  from setBreakpoints_activationWith [OF this m r a]
  have "vscodeDebug_breakpoints (snd (setBreakpoints keepPath
      (activationWith [sourceJson ''/a.ts'' range_1_0_1_5 True]
         [sourceInstance ''/a.ts'' range_1_0_1_5 False] False))) =
     [sourceInstance ''/a.ts'' range_1_0_1_5 False]"
    by (simp add: vscodeDebug_breakpoints_activationWith addBreakpoints_def
          removeBreakpoints_def)
  then show ?thesis
    by (simp add: specEquality_def sourceInstance_def sourceJson_def)
qed

text \<open>
  Claim C4, as the code has it. Take a branch whose stored list is not empty, whose entries
  can all be materialised (\<^verbatim>\<open>getBreakpoint\<close> throws for none of them) and satisfy the
  invariant of their class, and whose stored paths are given back by the host's parser.
  When the host holds its own objects and the materialised entries are such objects, the
  run of \<^verbatim>\<open>setBreakpoints\<close> completes. And after a run that completes, with the host's
  add and remove as union and difference, the live set is equal to the stored list under
  the equality of the spec, whatever the host held before.
\<close>

theorem setBreakpoints_live_equals_stored:
  assumes f: "find (\<lambda>x. name x = head s) (branch (branchBreakpoints s)) = Some br"
    and ne: "breakpoints br \<noteq> []"
    and m: "map_getBreakpoint uri_parse (breakpoints br) = Inr new"
    and ci: "list_all classInvariant (breakpoints br)"
    and pk: "list_all (pathKept uri_parse) (breakpoints br)"
  shows "(list_all locationOnSource (vscodeDebug_breakpoints s) \<and>
          list_all locationOnSource new \<longrightarrow>
          fst (setBreakpoints uri_parse s) = None) \<and>
         (fst (setBreakpoints uri_parse s) = None \<longrightarrow>
          equalUnderIdentity (vscodeDebug_breakpoints (snd (setBreakpoints uri_parse s)))
            (breakpoints br))"
proof (intro conjI impI)
  assume "list_all locationOnSource (vscodeDebug_breakpoints s) \<and>
      list_all locationOnSource new"
  then show "fst (setBreakpoints uri_parse s) = None"
    using setBreakpoints_completes [OF f ne m] by blast
next
  assume fin: "fst (setBreakpoints uri_parse s) = None"
  let ?cur = "vscodeDebug_breakpoints s"
  let ?live = "vscodeDebug_breakpoints (snd (setBreakpoints uri_parse s))"
  note a2 = map_getBreakpoint_list_all2 [OF m]
  from setBreakpoints_completed [OF f ne m fin] obtain toRemove toAdd where
    r: "withoutCounterpart ?cur new = Inr toRemove"
    and a: "withoutCounterpart new ?cur = Inr toAdd"
    and live: "set ?live = (set ?cur \<union> set toAdd) - set toRemove"
    by blast
  have refl: "specEquality n n" if "n \<in> set new" for n
  proof -
    from list_all2_right [OF a2 that]
    obtain j where j: "j \<in> set (breakpoints br)" "getBreakpoint uri_parse j = Inr n"
      by blast
    with ci have "classInvariant j" by (simp add: list_all_iff)
    with j show ?thesis
      by (blast intro: specEquality_refl dest: getBreakpoint_kind)
  qed
  have to_stored: "\<exists>j\<in>set (breakpoints br). specEquality x j"
    if "n \<in> set new" "specEquality x n" for x n
  proof -
    from list_all2_right [OF a2 that(1)]
    obtain j where j: "j \<in> set (breakpoints br)" "getBreakpoint uri_parse j = Inr n"
      by blast
    with pk have "pathKept uri_parse j" by (simp add: list_all_iff)
    with j that(2) show ?thesis
      by (blast intro: getBreakpoint_same_identity)
  qed
  have 1: "\<exists>j\<in>set (breakpoints br). specEquality b j" if "b \<in> set ?live" for b
  proof -
    have "\<exists>n\<in>set new. specEquality b n"
    proof (cases "b \<in> set ?cur")
      case True
      moreover from that live have "b \<notin> set toRemove" by simp
      ultimately obtain n where "n \<in> set new" "areBreakpointsEqual b n = Inr True"
        using withoutCounterpart_dropped [OF r] by blast
      then show ?thesis
        using areBreakpointsEqual_returns [of b n True] by blast
    next
      case False
      with that live have "b \<in> set toAdd" by simp
      from withoutCounterpart_kept [OF a this] have "b \<in> set new" by simp
      with refl show ?thesis by blast
    qed
    then show ?thesis
      using to_stored by blast
  qed
  have 2: "\<exists>b\<in>set ?live. specEquality j b" if "j \<in> set (breakpoints br)" for j
  proof -
    from list_all2_left [OF a2 that]
    obtain n where n: "n \<in> set new" "getBreakpoint uri_parse j = Inr n"
      by blast
    from pk that have k: "pathKept uri_parse j" by (simp add: list_all_iff)
    have "\<exists>b\<in>set ?live. specEquality b n"
    proof (cases "n \<in> set toAdd")
      case True
      have "n \<notin> set toRemove"
      proof
        assume "n \<in> set toRemove"
        from withoutCounterpart_kept [OF r this] n(1)
        have "areBreakpointsEqual n n = Inr False" by simp
        from areBreakpointsEqual_returns [OF this] refl [OF n(1)] show False
          by simp
      qed
      with True live have "n \<in> set ?live" by simp
      with refl [OF n(1)] show ?thesis by blast
    next
      case False
      from withoutCounterpart_dropped [OF a n(1) False]
      obtain c where c: "c \<in> set ?cur" "areBreakpointsEqual n c = Inr True"
        by blast
      from areBreakpointsEqual_returns [OF c(2)] have nc: "specEquality c n"
        by (simp add: specEquality_sym)
      have "c \<notin> set toRemove"
      proof
        assume "c \<in> set toRemove"
        from withoutCounterpart_kept [OF r this] n(1)
        have "areBreakpointsEqual c n = Inr False" by simp
        from areBreakpointsEqual_returns [OF this] nc show False
          by simp
      qed
      with c(1) live have "c \<in> set ?live" by simp
      with nc show ?thesis by blast
    qed
    then obtain b where b: "b \<in> set ?live" "specEquality b n"
      by blast
    from getBreakpoint_same_identity [OF n(2) k b(2)]
    have "specEquality j b" by (simp add: specEquality_sym)
    with b(1) show ?thesis by blast
  qed
  show "equalUnderIdentity ?live (breakpoints br)"
    unfolding equalUnderIdentity_def list_all_iff list_ex_iff
    using 1 2 by blast
qed

theorem setBreakpoints_live_equals_stored_witness:
  "find (\<lambda>x. name x = head (activationWith [sourceJson ''/a.ts'' range_1_0_1_5 True]
        [functionInstance ''main'' True] False))
     (branch (branchBreakpoints (activationWith [sourceJson ''/a.ts'' range_1_0_1_5 True]
        [functionInstance ''main'' True] False))) =
     Some \<lparr>name = ''main'', breakpoints = [sourceJson ''/a.ts'' range_1_0_1_5 True]\<rparr> \<and>
   map_getBreakpoint keepPath [sourceJson ''/a.ts'' range_1_0_1_5 True] =
     Inr [sourceInstance ''/a.ts'' range_1_0_1_5 True] \<and>
   list_all classInvariant [sourceJson ''/a.ts'' range_1_0_1_5 True] \<and>
   list_all (pathKept keepPath) [sourceJson ''/a.ts'' range_1_0_1_5 True] \<and>
   list_all locationOnSource [functionInstance ''main'' True] \<and>
   list_all locationOnSource [sourceInstance ''/a.ts'' range_1_0_1_5 True] \<and>
   fst (setBreakpoints keepPath (activationWith [sourceJson ''/a.ts'' range_1_0_1_5 True]
        [functionInstance ''main'' True] False)) = None \<and>
   equalUnderIdentity
     (vscodeDebug_breakpoints (snd (setBreakpoints keepPath
        (activationWith [sourceJson ''/a.ts'' range_1_0_1_5 True]
           [functionInstance ''main'' True] False))))
     [sourceJson ''/a.ts'' range_1_0_1_5 True]"
proof -
  let ?s = "activationWith [sourceJson ''/a.ts'' range_1_0_1_5 True]
              [functionInstance ''main'' True] False"
  let ?br = "\<lparr>name = ''main'', breakpoints = [sourceJson ''/a.ts'' range_1_0_1_5 True]\<rparr>"
  have f: "find (\<lambda>x. name x = head ?s) (branch (branchBreakpoints ?s)) = Some ?br"
    by (rule find_main_mapWith)
  have ne: "breakpoints ?br \<noteq> []" by simp
  have m: "map_getBreakpoint keepPath (breakpoints ?br) =
      Inr [sourceInstance ''/a.ts'' range_1_0_1_5 True]"
    by (simp add: getBreakpoint_sourceJson)
  have ci: "list_all classInvariant (breakpoints ?br)"
    by (simp add: classInvariant_def sourceJson_def)
  have pk: "list_all (pathKept keepPath) (breakpoints ?br)"
    by (simp add: pathKept_def keepPath_def sourceJson_def)
  have h1: "list_all locationOnSource [functionInstance ''main'' True]"
    by (simp add: locationOnSource_def functionInstance_def functionJson_def)
  then have cur: "list_all locationOnSource (vscodeDebug_breakpoints ?s)"
    by (simp add: vscodeDebug_breakpoints_activationWith)
  have h2: "list_all locationOnSource [sourceInstance ''/a.ts'' range_1_0_1_5 True]"
    by (simp add: locationOnSource_def sourceInstance_def)
  note run = setBreakpoints_live_equals_stored [OF f ne m ci pk]
  from run cur h2 have fin: "fst (setBreakpoints keepPath ?s) = None"
    by blast
  with run have "equalUnderIdentity
      (vscodeDebug_breakpoints (snd (setBreakpoints keepPath ?s))) (breakpoints ?br)"
    by blast
  with f m ci pk h1 h2 fin show ?thesis
    by simp
qed

text \<open>
  Without the condition on the entries the claim fails: the stored list holds a breakpoint
  for \<open>/a.ts\<close> and an entry with neither location nor function name, \<^verbatim>\<open>getBreakpoint\<close>
  throws on the second, nothing is added, and the live set stays empty.
\<close>

theorem setBreakpoints_unconstructible_counterexample:
  "vscodeDebug_breakpoints (snd (setBreakpoints keepPath
      (activationWith [sourceJson ''/a.ts'' range_1_0_1_5 True, neitherSet] [] False))) = [] \<and>
   \<not> equalUnderIdentity
      (vscodeDebug_breakpoints (snd (setBreakpoints keepPath
         (activationWith [sourceJson ''/a.ts'' range_1_0_1_5 True, neitherSet] [] False))))
      [sourceJson ''/a.ts'' range_1_0_1_5 True, neitherSet]"
proof -
  have "getBreakpoint keepPath neitherSet =
      Inl (Error ''location or functionName has not been defined on the breakpoint.'')"
    by (simp add: getBreakpoint_def neitherSet_def)
  then have "map_getBreakpoint keepPath [sourceJson ''/a.ts'' range_1_0_1_5 True, neitherSet] =
      Inl (Error ''location or functionName has not been defined on the breakpoint.'')"
    by (simp add: getBreakpoint_sourceJson)
  then have "vscodeDebug_breakpoints (snd (setBreakpoints keepPath
      (activationWith [sourceJson ''/a.ts'' range_1_0_1_5 True, neitherSet] [] False))) = []"
    by (simp add: setBreakpoints_activationWith_throw vscodeDebug_breakpoints_activationWith)
  then show ?thesis
    by (simp add: equalUnderIdentity_def)
qed

section \<open>The scan of the dedup pass\<close>

lemma scanBreakpoint_split:
  "scanBreakpoint bp m = (scanLocation bp (fst m), scanFunction bp (snd m))"
  by (cases m)
     (simp add: scanBreakpoint_def scanLocation_def scanFunction_def locationKey_def
        functionKey_def lookupRange_def Let_def split: option.splits)

lemma fold_scanBreakpoint:
  "fold scanBreakpoint bps m = (fold scanLocation bps (fst m), fold scanFunction bps (snd m))"
  by (induction bps arbitrary: m) (simp_all add: scanBreakpoint_split)

lemma list_all_update:
  "P (k, v) \<Longrightarrow> list_all P al \<Longrightarrow> list_all P (AList.update k v al)"
  by (induction al) auto

lemma lookupRange_scanLocation:
  "lookupRange (scanLocation b m) p r =
     (if locationKey b = Some (p, r)
      then Some \<lparr>breakpoint = b,
                 count = (case lookupRange m p r of None \<Rightarrow> 1 | Some d \<Rightarrow> count d + 1)\<rparr>
      else lookupRange m p r)"
  by (cases "locationKey b")
     (auto simp: scanLocation_def lookupRange_def update_conv' split: option.splits)

lemma distinctKeys_scanLocation:
  assumes "distinctKeys m"
  shows "distinctKeys (scanLocation b m)"
proof (cases "locationKey b")
  case None
  with assms show ?thesis by (simp add: scanLocation_def)
next
  case (Some k)
  let ?rm = "case map_of m (fst k) of None \<Rightarrow> [] | Some rm \<Rightarrow> rm"
  have "distinct (map fst ?rm)"
  proof (cases "map_of m (fst k)")
    case None
    then show ?thesis by simp
  next
    case (Some rm)
    then have "(fst k, rm) \<in> set m" by (rule map_of_SomeD)
    with assms Some show ?thesis
      by (auto simp: distinctKeys_def list_all_iff)
  qed
  then have "distinct (map fst (AList.update (snd k) d ?rm))" for d
    by (rule distinct_update)
  then have "list_all (\<lambda>e. distinct (map fst (snd e)))
      (AList.update (fst k) (AList.update (snd k) d ?rm) m)" for d
    using assms by (intro list_all_update) (simp_all add: distinctKeys_def)
  with assms Some show ?thesis
    by (simp add: distinctKeys_def scanLocation_def distinct_update)
qed

lemma distinctKeys_fold: "distinctKeys (fold scanLocation bps [])"
proof (induction bps rule: rev_induct)
  case Nil
  show ?case by (simp add: distinctKeys_def)
next
  case (snoc b bps)
  then show ?case by (simp add: distinctKeys_scanLocation)
qed

lemma lookupRange_fold:
  "lookupRange (fold scanLocation bps []) p r =
     (if atLocation (p, r) bps = [] then None
      else Some \<lparr>breakpoint = last (atLocation (p, r) bps),
                 count = length (atLocation (p, r) bps)\<rparr>)"
proof (induction bps rule: rev_induct)
  case Nil
  show ?case by (simp add: lookupRange_def atLocation_def)
next
  case (snoc b bps)
  then show ?case
    by (simp add: lookupRange_scanLocation atLocation_def)
qed

lemma map_of_scanFunction:
  "map_of (scanFunction b m) f =
     (if functionKey b = Some f
      then Some ((case map_of m f of None \<Rightarrow> [] | Some arr \<Rightarrow> arr) @ [b])
      else map_of m f)"
  by (cases "functionKey b") (auto simp: scanFunction_def update_conv')

lemma distinct_scanFunction:
  "distinct (map fst m) \<Longrightarrow> distinct (map fst (scanFunction b m))"
  by (cases "functionKey b") (simp_all add: scanFunction_def distinct_update)

lemma distinct_fold_scanFunction: "distinct (map fst (fold scanFunction bps []))"
  by (induction bps rule: rev_induct) (simp_all add: distinct_scanFunction)

lemma map_of_fold_scanFunction:
  "map_of (fold scanFunction bps []) f =
     (if atFunction f bps = [] then None else Some (atFunction f bps))"
proof (induction bps rule: rev_induct)
  case Nil
  show ?case by (simp add: atFunction_def)
next
  case (snoc b bps)
  then show ?case
    by (simp add: map_of_scanFunction atFunction_def)
qed

lemma set_locationEntries:
  "set (locationEntries m) = (\<Union>e\<in>set m. (\<lambda>x. ((fst e, fst x), snd x)) ` set (snd e))"
  by (induction m) simp_all

lemma locationEntries_mem:
  "(((p, r), d) \<in> set (locationEntries m)) = (\<exists>rm. (p, rm) \<in> set m \<and> (r, d) \<in> set rm)"
proof
  assume "((p, r), d) \<in> set (locationEntries m)"
  then obtain e x where "e \<in> set m" "x \<in> set (snd e)" "((p, r), d) = ((fst e, fst x), snd x)"
    unfolding set_locationEntries by blast
  then have "(p, snd e) \<in> set m" "(r, d) \<in> set (snd e)"
    by simp_all
  then show "\<exists>rm. (p, rm) \<in> set m \<and> (r, d) \<in> set rm" by blast
next
  assume "\<exists>rm. (p, rm) \<in> set m \<and> (r, d) \<in> set rm"
  then obtain rm where rm: "(p, rm) \<in> set m" "(r, d) \<in> set rm" by blast
  from rm(2) have "((p, r), d) \<in> (\<lambda>x. ((fst (p, rm), fst x), snd x)) ` set (snd (p, rm))"
    by (intro image_eqI [where x = "(r, d)"]) simp_all
  with rm(1) show "((p, r), d) \<in> set (locationEntries m)"
    unfolding set_locationEntries by blast
qed

lemma locationEntries_lookupRange:
  assumes "distinctKeys m"
  shows "(((p, r), d) \<in> set (locationEntries m)) = (lookupRange m p r = Some d)"
proof -
  have "(\<exists>rm. (p, rm) \<in> set m \<and> (r, d) \<in> set rm) = (lookupRange m p r = Some d)"
  proof
    assume "\<exists>rm. (p, rm) \<in> set m \<and> (r, d) \<in> set rm"
    then obtain rm where rm: "(p, rm) \<in> set m" "(r, d) \<in> set rm" by blast
    with assms have "distinct (map fst rm)"
      by (auto simp: distinctKeys_def list_all_iff)
    with rm assms show "lookupRange m p r = Some d"
      by (simp add: lookupRange_def distinctKeys_def)
  next
    assume "lookupRange m p r = Some d"
    then obtain rm where "map_of m p = Some rm" "map_of rm r = Some d"
      by (auto simp: lookupRange_def split: option.splits)
    then show "\<exists>rm. (p, rm) \<in> set m \<and> (r, d) \<in> set rm"
      by (blast dest: map_of_SomeD)
  qed
  then show ?thesis by (simp add: locationEntries_mem)
qed

lemma locationEntries_paths:
  "((p, r), d) \<in> set (locationEntries m) \<Longrightarrow> p \<in> fst ` set m"
proof -
  assume "((p, r), d) \<in> set (locationEntries m)"
  then obtain rm where "(p, rm) \<in> set m"
    unfolding locationEntries_mem by blast
  then have "fst (p, rm) \<in> fst ` set m" by (rule imageI)
  then show ?thesis by simp
qed

lemma distinct_locationEntries:
  "distinctKeys m \<Longrightarrow> distinct (map fst (locationEntries m))"
proof (induction m)
  case Nil
  show ?case by simp
next
  case (Cons e m)
  then have rest: "distinct (map fst (locationEntries m))"
    by (simp add: distinctKeys_def)
  from Cons.prems have "distinct (map fst (snd e))"
    by (simp add: distinctKeys_def)
  then have here: "distinct (map (\<lambda>x. (fst e, fst x)) (snd e))"
    by (simp add: distinct_map inj_on_def)
  from Cons.prems have "fst e \<notin> fst ` set m"
    by (simp add: distinctKeys_def)
  then have "((fst e, r), d) \<notin> set (locationEntries m)" for r d
    using locationEntries_paths [of "fst e" r d m] by blast
  then have "fst ` (\<lambda>x. ((fst e, fst x), snd x)) ` set (snd e) \<inter>
      fst ` set (locationEntries m) = {}"
    by (auto simp: image_iff)
  with rest here show ?case
    by (simp add: comp_def image_image)
qed

lemma newBreakpoints_entries:
  "newBreakpoints m fnm =
     map (\<lambda>e. breakpoint (snd e)) (locationEntries m) @ map (\<lambda>e. snd e ! 0) fnm"
proof -
  have "concat (map (\<lambda>(path0, rangeMap). map (\<lambda>(rangeStr, d). breakpoint d) rangeMap) m) =
        map (\<lambda>e. breakpoint (snd e)) (locationEntries m)"
    by (induction m) (auto simp: case_prod_beta comp_def)
  then show ?thesis
    by (simp add: newBreakpoints_def case_prod_beta)
qed

lemma needsRecreate_entries:
  "needsRecreate m fnm =
     (list_ex (\<lambda>e. 1 < count (snd e)) (locationEntries m) \<or>
      list_ex (\<lambda>e. 1 < length (snd e)) fnm)"
proof -
  have "list_ex (\<lambda>(path0, rangeMap). list_ex (\<lambda>(rangeStr, d). count d > 1) rangeMap) m =
        list_ex (\<lambda>e. 1 < count (snd e)) (locationEntries m)"
    by (induction m) (simp_all add: case_prod_beta list_ex_iff bex_Un)
  then show ?thesis
    unfolding needsRecreate_def by (simp add: case_prod_unfold)
qed

text \<open>The maps at the end of the scan of a list.\<close>

lemma scanned_locationEntries:
  "((k, d) \<in> set (locationEntries (fold scanLocation bps []))) =
     (atLocation k bps \<noteq> [] \<and>
      d = \<lparr>breakpoint = last (atLocation k bps), count = length (atLocation k bps)\<rparr>)"
proof (cases k)
  case (Pair p r)
  have "(((p, r), d) \<in> set (locationEntries (fold scanLocation bps []))) =
        (lookupRange (fold scanLocation bps []) p r = Some d)"
    by (rule locationEntries_lookupRange [OF distinctKeys_fold])
  also have "\<dots> = (atLocation (p, r) bps \<noteq> [] \<and>
      d = \<lparr>breakpoint = last (atLocation (p, r) bps), count = length (atLocation (p, r) bps)\<rparr>)"
    unfolding lookupRange_fold by auto
  finally show ?thesis
    using Pair by simp
qed

lemma scanned_functionNameMap:
  "((f, arr) \<in> set (fold scanFunction bps [])) =
     (atFunction f bps \<noteq> [] \<and> arr = atFunction f bps)"
proof -
  have "((f, arr) \<in> set (fold scanFunction bps [])) =
        (map_of (fold scanFunction bps []) f = Some arr)"
    by (simp add: distinct_fold_scanFunction)
  also have "\<dots> = (atFunction f bps \<noteq> [] \<and> arr = atFunction f bps)"
    unfolding map_of_fold_scanFunction by auto
  finally show ?thesis .
qed

lemma locationKey_functionKey: "locationKey b = Some k \<Longrightarrow> functionKey b = None"
  by (auto simp: locationKey_def functionKey_def split: option.splits)

lemma functionKey_locationKey: "functionKey b = Some f \<Longrightarrow> locationKey b = None"
  by (auto simp: locationKey_def functionKey_def split: option.splits)

lemma locationKey_dedupKey: "(locationKey b = Some k) = (dedupKey b = (Some k, None))"
  by (auto simp: dedupKey_def locationKey_functionKey)

lemma functionKey_dedupKey: "(functionKey b = Some f) = (dedupKey b = (None, Some f))"
  by (auto simp: dedupKey_def functionKey_locationKey)

lemma last_atLocation: "atLocation k bps \<noteq> [] \<Longrightarrow> locationKey (last (atLocation k bps)) = Some k"
  using last_in_set [of "atLocation k bps"] by (simp add: atLocation_def)

lemma first_atFunction: "atFunction f bps \<noteq> [] \<Longrightarrow> functionKey (atFunction f bps ! 0) = Some f"
  using nth_mem [of 0 "atFunction f bps"] by (simp add: atFunction_def)

lemma dedupKey_scanned:
  "map dedupKey (newBreakpoints (fold scanLocation bps []) (fold scanFunction bps [])) =
     map (\<lambda>e. (Some (fst e), None)) (locationEntries (fold scanLocation bps [])) @
     map (\<lambda>e. (None, Some (fst e))) (fold scanFunction bps [])"
proof -
  have "dedupKey (breakpoint (snd e)) = (Some (fst e), None)"
    if "e \<in> set (locationEntries (fold scanLocation bps []))" for e
  proof -
    from that have "(fst e, snd e) \<in> set (locationEntries (fold scanLocation bps []))"
      by simp
    then have "atLocation (fst e) bps \<noteq> []"
      "breakpoint (snd e) = last (atLocation (fst e) bps)"
      unfolding scanned_locationEntries by simp_all
    then have "locationKey (breakpoint (snd e)) = Some (fst e)"
      by (simp add: last_atLocation)
    then show ?thesis
      by (simp only: locationKey_dedupKey)
  qed
  moreover have "dedupKey (snd e ! 0) = (None, Some (fst e))"
    if "e \<in> set (fold scanFunction bps [])" for e
  proof -
    from that have "(fst e, snd e) \<in> set (fold scanFunction bps [])"
      by simp
    then have "atFunction (fst e) bps \<noteq> []" "snd e = atFunction (fst e) bps"
      unfolding scanned_functionNameMap by simp_all
    then have "functionKey (snd e ! 0) = Some (fst e)"
      by (simp add: first_atFunction)
    then show ?thesis
      by (simp only: functionKey_dedupKey)
  qed
  ultimately show ?thesis
    by (simp add: newBreakpoints_entries)
qed

lemma distinct_map_tagged:
  "distinct (map fst es) \<Longrightarrow> inj g \<Longrightarrow> distinct (map (\<lambda>e. g (fst e)) es)"
  by (induction es) (auto dest: injD)

lemma distinct_dedupKey_scanned:
  "distinct (map dedupKey
     (newBreakpoints (fold scanLocation bps []) (fold scanFunction bps [])))"
proof -
  have "distinct (map (\<lambda>e. (Some (fst e), None :: string option))
      (locationEntries (fold scanLocation bps [])))"
    by (rule distinct_map_tagged [OF distinct_locationEntries [OF distinctKeys_fold]])
       (simp add: inj_on_def)
  moreover have "distinct (map (\<lambda>e. (None :: (string \<times> string) option, Some (fst e)))
      (fold scanFunction bps []))"
    by (rule distinct_map_tagged [OF distinct_fold_scanFunction]) (simp add: inj_on_def)
  ultimately show ?thesis
    by (auto simp: dedupKey_scanned)
qed

lemma needsRecreate_scanned:
  "needsRecreate (fold scanLocation bps []) (fold scanFunction bps []) =
     ((\<exists>k. 1 < length (atLocation k bps)) \<or> (\<exists>f. 1 < length (atFunction f bps)))"
proof -
  have "list_ex (\<lambda>e. 1 < count (snd e)) (locationEntries (fold scanLocation bps [])) =
        (\<exists>k. 1 < length (atLocation k bps))"
  proof
    assume "list_ex (\<lambda>e. 1 < count (snd e)) (locationEntries (fold scanLocation bps []))"
    then obtain e where "(fst e, snd e) \<in> set (locationEntries (fold scanLocation bps []))"
        "1 < count (snd e)"
      by (auto simp: list_ex_iff)
    then have "1 < length (atLocation (fst e) bps)"
      unfolding scanned_locationEntries by simp
    then show "\<exists>k. 1 < length (atLocation k bps)" ..
  next
    assume "\<exists>k. 1 < length (atLocation k bps)"
    then obtain k where k: "1 < length (atLocation k bps)" ..
    then have "atLocation k bps \<noteq> []" by auto
    then have "(k, \<lparr>breakpoint = last (atLocation k bps), count = length (atLocation k bps)\<rparr>)
        \<in> set (locationEntries (fold scanLocation bps []))"
      unfolding scanned_locationEntries by simp
    with k show "list_ex (\<lambda>e. 1 < count (snd e)) (locationEntries (fold scanLocation bps []))"
      unfolding list_ex_iff by force
  qed
  moreover have "list_ex (\<lambda>e. 1 < length (snd e)) (fold scanFunction bps []) =
        (\<exists>f. 1 < length (atFunction f bps))"
  proof
    assume "list_ex (\<lambda>e. 1 < length (snd e)) (fold scanFunction bps [])"
    then obtain e where "(fst e, snd e) \<in> set (fold scanFunction bps [])" "1 < length (snd e)"
      by (auto simp: list_ex_iff)
    then have "1 < length (atFunction (fst e) bps)"
      unfolding scanned_functionNameMap by simp
    then show "\<exists>f. 1 < length (atFunction f bps)" ..
  next
    assume "\<exists>f. 1 < length (atFunction f bps)"
    then obtain f where f: "1 < length (atFunction f bps)" ..
    then have "atFunction f bps \<noteq> []" by auto
    then have "(f, atFunction f bps) \<in> set (fold scanFunction bps [])"
      unfolding scanned_functionNameMap by simp
    with f show "list_ex (\<lambda>e. 1 < length (snd e)) (fold scanFunction bps [])"
      unfolding list_ex_iff by force
  qed
  ultimately show ?thesis
    by (simp add: needsRecreate_entries)
qed

section \<open>The dedup pass on one branch and on the map\<close>

text \<open>
  Every array of the function-name map holds at least one breakpoint, so the index \<open>0\<close>
  that the rebuild reads is in range.
\<close>

lemma functionNameMap_nonempty:
  "(f, arr) \<in> set (snd (fold scanBreakpoint bps ([], []))) \<Longrightarrow> arr \<noteq> []"
  by (simp add: fold_scanBreakpoint scanned_functionNameMap)

lemma checkBranch_scanned:
  "checkBranch br =
     (if (\<exists>k. 1 < length (atLocation k (breakpoints br))) \<or>
         (\<exists>f. 1 < length (atFunction f (breakpoints br)))
      then (br\<lparr>breakpoints :=
                 newBreakpoints (fold scanLocation (breakpoints br) [])
                   (fold scanFunction (breakpoints br) [])\<rparr>, True)
      else (br, False))"
  by (simp add: checkBranch_def fold_scanBreakpoint needsRecreate_scanned Let_def)

lemma filter_distinct_map_single:
  "distinct (map f xs) \<Longrightarrow> x \<in> set xs \<Longrightarrow> filter (\<lambda>y. f y = f x) xs = [x]"
proof (induction xs)
  case Nil
  then show ?case by simp
next
  case (Cons a xs)
  show ?case
  proof (cases "a = x")
    case True
    with Cons.prems have "filter (\<lambda>y. f y = f x) xs = []"
      by (auto simp: filter_empty_conv image_iff)
    with True show ?thesis by simp
  next
    case False
    with Cons.prems have "x \<in> set xs" "f a \<noteq> f x"
      by (auto simp: image_iff)
    with Cons show ?thesis by simp
  qed
qed

lemma filter_distinct_map_le1:
  "distinct (map f xs) \<Longrightarrow> length (filter (\<lambda>y. f y = c) xs) \<le> 1"
proof (induction xs)
  case Nil
  then show ?case by simp
next
  case (Cons a xs)
  show ?case
  proof (cases "f a = c")
    case True
    with Cons.prems have "filter (\<lambda>y. f y = c) xs = []"
      by (auto simp: filter_empty_conv image_iff)
    with True show ?thesis by simp
  next
    case False
    with Cons show ?thesis by simp
  qed
qed

lemma last_atLocation_rebuilt:
  assumes "atLocation k bps \<noteq> []"
  shows "last (atLocation k bps) \<in>
         set (newBreakpoints (fold scanLocation bps []) (fold scanFunction bps []))"
proof -
  from assms
  have "(k, \<lparr>breakpoint = last (atLocation k bps), count = length (atLocation k bps)\<rparr>)
      \<in> set (locationEntries (fold scanLocation bps []))"
    unfolding scanned_locationEntries by simp
  then have "breakpoint (snd (k, \<lparr>breakpoint = last (atLocation k bps),
        count = length (atLocation k bps)\<rparr>))
      \<in> (\<lambda>e. breakpoint (snd e)) ` set (locationEntries (fold scanLocation bps []))"
    by (rule imageI)
  then show ?thesis
    by (simp add: newBreakpoints_entries)
qed

text \<open>Of the breakpoints filed under one location key the rebuilt list holds the last.\<close>

lemma atLocation_rebuilt:
  assumes "atLocation k bps \<noteq> []"
  shows "atLocation k (newBreakpoints (fold scanLocation bps []) (fold scanFunction bps [])) =
         [last (atLocation k bps)]"
proof -
  let ?out = "newBreakpoints (fold scanLocation bps []) (fold scanFunction bps [])"
  have key: "dedupKey (last (atLocation k bps)) = (Some k, None)"
    using last_atLocation [OF assms] by (simp only: locationKey_dedupKey)
  have "atLocation k ?out = filter (\<lambda>y. dedupKey y = (Some k, None)) ?out"
    by (simp add: atLocation_def locationKey_dedupKey)
  also have "\<dots> = filter (\<lambda>y. dedupKey y = dedupKey (last (atLocation k bps))) ?out"
    by (simp only: key)
  also have "\<dots> = [last (atLocation k bps)]"
    by (rule filter_distinct_map_single
          [OF distinct_dedupKey_scanned last_atLocation_rebuilt [OF assms]])
  finally show ?thesis .
qed

text \<open>A rebuilt list has no key twice, so the pass finds nothing to do on it.\<close>

lemma rebuilt_no_duplicates:
  "length (atLocation k (newBreakpoints (fold scanLocation bps []) (fold scanFunction bps []))) \<le> 1"
  "length (atFunction f (newBreakpoints (fold scanLocation bps []) (fold scanFunction bps []))) \<le> 1"
  using filter_distinct_map_le1 [OF distinct_dedupKey_scanned [of bps]]
  by (simp_all add: atLocation_def atFunction_def locationKey_dedupKey functionKey_dedupKey)

lemma checkBranch_idempotent:
  "checkBranch (fst (checkBranch br)) = (fst (checkBranch br), False)"
proof -
  let ?out = "newBreakpoints (fold scanLocation (breakpoints br) [])
      (fold scanFunction (breakpoints br) [])"
  define C where "C \<longleftrightarrow> (\<exists>k. 1 < length (atLocation k (breakpoints br))) \<or>
      (\<exists>f. 1 < length (atFunction f (breakpoints br)))"
  have cb: "checkBranch br = (if C then (br\<lparr>breakpoints := ?out\<rparr>, True) else (br, False))"
    unfolding C_def by (rule checkBranch_scanned)
  show ?thesis
  proof (cases C)
    case False
    with cb show ?thesis by simp
  next
    case True
    have "\<not> 1 < length (atLocation k ?out)" "\<not> 1 < length (atFunction f ?out)" for k f
      using rebuilt_no_duplicates [of _ "breakpoints br"]
      by (simp_all add: not_less)
    then have "checkBranch (br\<lparr>breakpoints := ?out\<rparr>) = (br\<lparr>breakpoints := ?out\<rparr>, False)"
      by (simp add: checkBranch_scanned [of "br\<lparr>breakpoints := ?out\<rparr>"])
    with cb True show ?thesis by simp
  qed
qed

lemma locationKey_sourceJson: "locationKey (sourceJson p r e) = Some (p, toStringRange r)"
  by (simp add: locationKey_def sourceJson_def)

lemma functionKey_sourceJson: "functionKey (sourceJson p r e) = None"
  by (simp add: functionKey_def sourceJson_def)

text \<open>
  Claim C2, as the code has it. When a key of resource path and stringified range occurs
  more than once among the location breakpoints of a branch, the pass rebuilds the list of
  the branch, and the rebuilt list holds exactly one breakpoint under that key: the last
  one in scan order. The earlier ones are counted and dropped.
\<close>

theorem checkBranch_keeps_last:
  assumes "1 < length (atLocation k (breakpoints br))"
  shows "snd (checkBranch br) \<and>
         atLocation k (breakpoints (fst (checkBranch br))) =
           [last (atLocation k (breakpoints br))]"
proof -
  let ?out = "newBreakpoints (fold scanLocation (breakpoints br) [])
      (fold scanFunction (breakpoints br) [])"
  from assms have ne: "atLocation k (breakpoints br) \<noteq> []" by auto
  from assms have "(\<exists>k. 1 < length (atLocation k (breakpoints br))) \<or>
      (\<exists>f. 1 < length (atFunction f (breakpoints br)))"
    by blast
  then have "checkBranch br = (br\<lparr>breakpoints := ?out\<rparr>, True)"
    by (simp only: checkBranch_scanned if_True)
  with atLocation_rebuilt [OF ne] show ?thesis
    by simp
qed

theorem checkBranch_keeps_last_witness:
  "1 < length (atLocation (''/b.ts'', toStringRange range_2_0_2_0)
         (breakpoints \<lparr>name = ''dev'', breakpoints =
            [sourceJson ''/b.ts'' range_2_0_2_0 True,
             sourceJson ''/b.ts'' range_2_0_2_0 False]\<rparr>)) \<and>
   snd (checkBranch \<lparr>name = ''dev'', breakpoints =
            [sourceJson ''/b.ts'' range_2_0_2_0 True,
             sourceJson ''/b.ts'' range_2_0_2_0 False]\<rparr>) \<and>
   atLocation (''/b.ts'', toStringRange range_2_0_2_0)
     (breakpoints (fst (checkBranch \<lparr>name = ''dev'', breakpoints =
            [sourceJson ''/b.ts'' range_2_0_2_0 True,
             sourceJson ''/b.ts'' range_2_0_2_0 False]\<rparr>))) =
   [sourceJson ''/b.ts'' range_2_0_2_0 False]"
proof -
  let ?br = "\<lparr>name = ''dev'', breakpoints =
            [sourceJson ''/b.ts'' range_2_0_2_0 True,
             sourceJson ''/b.ts'' range_2_0_2_0 False]\<rparr>"
  have a: "atLocation (''/b.ts'', toStringRange range_2_0_2_0)
      [sourceJson ''/b.ts'' range_2_0_2_0 True, sourceJson ''/b.ts'' range_2_0_2_0 False] =
      [sourceJson ''/b.ts'' range_2_0_2_0 True, sourceJson ''/b.ts'' range_2_0_2_0 False]"
    by (simp add: atLocation_def locationKey_sourceJson)
  have h: "1 < length (atLocation (''/b.ts'', toStringRange range_2_0_2_0)
      (breakpoints ?br))"
    by (simp add: a)
  from checkBranch_keeps_last [OF h] h show ?thesis
    by (simp add: a)
qed

text \<open>
  The first breakpoint under a key is not the one that is kept. Two stored breakpoints of
  the branch \<open>dev\<close> are at the same place in \<open>/b.ts\<close>, the first enabled and the second
  disabled; the rebuilt list holds the second.
\<close>

theorem checkBranch_first_discarded_counterexample:
  "breakpoints (fst (checkBranch \<lparr>name = ''dev'', breakpoints =
      [sourceJson ''/b.ts'' range_2_0_2_0 True,
       sourceJson ''/b.ts'' range_2_0_2_0 False]\<rparr>)) =
     [sourceJson ''/b.ts'' range_2_0_2_0 False] \<and>
   sourceJson ''/b.ts'' range_2_0_2_0 False \<noteq> sourceJson ''/b.ts'' range_2_0_2_0 True"
proof -
  have "fold scanBreakpoint
      [sourceJson ''/b.ts'' range_2_0_2_0 True, sourceJson ''/b.ts'' range_2_0_2_0 False]
      ([], []) =
    ([(''/b.ts'', [(toStringRange range_2_0_2_0,
         \<lparr>breakpoint = sourceJson ''/b.ts'' range_2_0_2_0 False, count = 2\<rparr>)])], [])"
    by (simp add: scanBreakpoint_split scanLocation_def scanFunction_def
          locationKey_sourceJson functionKey_sourceJson lookupRange_def)
  then have "breakpoints (fst (checkBranch \<lparr>name = ''dev'', breakpoints =
      [sourceJson ''/b.ts'' range_2_0_2_0 True,
       sourceJson ''/b.ts'' range_2_0_2_0 False]\<rparr>)) =
     [sourceJson ''/b.ts'' range_2_0_2_0 False]"
    by (simp add: checkBranch_def needsRecreate_def newBreakpoints_def)
  then show ?thesis
    by (simp add: sourceJson_def)
qed

text \<open>
  Claim C5. The pass is idempotent. Run it on any context, store the map that it returns
  under the key, and run it again: the second run returns the same map, every list of
  breakpoints unchanged, reports that nothing was recreated, and leaves the context as it
  found it.
\<close>

theorem getWorkspaceBreakpoints_idempotent:
  "getWorkspaceBreakpoints
     ((snd (getWorkspaceBreakpoints ctx))
        \<lparr>workspaceState := Some (fst (fst (getWorkspaceBreakpoints ctx)))\<rparr>) =
   ((fst (fst (getWorkspaceBreakpoints ctx)), False),
    (snd (getWorkspaceBreakpoints ctx))
        \<lparr>workspaceState := Some (fst (fst (getWorkspaceBreakpoints ctx)))\<rparr>)"
proof -
  let ?loaded = "case workspaceState ctx of
      Some b \<Rightarrow> b | None \<Rightarrow> getInitialBranchBreakpoints ctx"
  define mig where "mig =
     (if noVersion (version ?loaded)
      then ((getInitialBranchBreakpoints ctx)\<lparr>version := Some ''0.0.2''\<rparr>,
            ctx\<lparr>workspaceState := None\<rparr>)
      else (?loaded, ctx))"
  define bbs where "bbs = (fst mig)\<lparr>branch := map fst (map checkBranch (branch (fst mig)))\<rparr>"
  have first: "getWorkspaceBreakpoints ctx =
      ((bbs, list_ex snd (map checkBranch (branch (fst mig)))), snd mig)"
    by (simp add: getWorkspaceBreakpoints_def mig_def bbs_def Let_def
          clearBranchBreakpoints_def)
  have "\<not> noVersion (version (fst mig))"
    by (simp add: mig_def noVersion_def)
  then have v: "\<not> noVersion (version bbs)"
    by (simp add: bbs_def)
  have again: "map checkBranch (branch bbs) = map (\<lambda>b. (b, False)) (branch bbs)"
    by (simp add: bbs_def checkBranch_idempotent)
  have "map fst (map checkBranch (branch bbs)) = branch bbs"
    unfolding again by (simp add: comp_def)
  then have same: "bbs\<lparr>branch := map fst (map checkBranch (branch bbs))\<rparr> = bbs"
    by simp
  have none: "\<not> list_ex snd (map checkBranch (branch bbs))"
    unfolding again by (simp add: list_ex_iff)
  have "getWorkspaceBreakpoints ((snd mig)\<lparr>workspaceState := Some bbs\<rparr>) =
      ((bbs, False), (snd mig)\<lparr>workspaceState := Some bbs\<rparr>)"
    using v none by (simp add: getWorkspaceBreakpoints_def Let_def same del: map_map)
  then show ?thesis
    by (simp add: first)
qed

end
